theory Spec2Isabelle
  imports Complex_Main "HOL-Library.Sublist" "HOL-Library.Log_Nat"
begin

section \<open>JavaScript values and strings\<close>

text \<open>
  The image pipeline of the repository lives in \<^verbatim>\<open>src/imageSearchService.js\<close> (class
  \<^verbatim>\<open>ImageSearchService\<close>) and \<^verbatim>\<open>src/cityService.js\<close> (class \<^verbatim>\<open>CityService\<close>).
  A string is the list of its UTF-16 code units; the type \<^typ>\<open>char\<close> holds the code
  units below 256 (Basic Latin and Latin-1 Supplement), so \<open>length\<close> is \<^verbatim>\<open>.length\<close>
  and \<open>CHR 0xD6\<close> is U+00D6. \<^verbatim>\<open>console.log\<close>, \<^verbatim>\<open>console.warn\<close> and
  \<^verbatim>\<open>console.error\<close> do not influence control flow and are left out.
\<close>

datatype jsval = Undefined | Null | JBool bool | JNum int | JStr string | JObject

text \<open>Truthiness (\<^verbatim>\<open>!url\<close>) and \<^verbatim>\<open>typeof\<close>.\<close>

fun truthy :: "jsval \<Rightarrow> bool" where
  "truthy Undefined = False"
| "truthy Null = False"
| "truthy (JBool b) = b"
| "truthy (JNum n) = (n \<noteq> 0)"
| "truthy (JStr s) = (s \<noteq> [])"
| "truthy JObject = True"

fun typeof :: "jsval \<Rightarrow> string" where
  "typeof Undefined = ''undefined''"
| "typeof Null = ''object''"
| "typeof (JBool b) = ''boolean''"
| "typeof (JNum n) = ''number''"
| "typeof (JStr s) = ''string''"
| "typeof JObject = ''object''"

text \<open>
  \<^verbatim>\<open>String.prototype.toLowerCase\<close> on these code units: the upper-case letters are
  U+0041 to U+005A and U+00C0 to U+00DE without the multiplication sign U+00D7, and
  the lower-case letter of each is 32 code units further; every other code unit below
  256 is its own lower case.
\<close>

definition toLowerChar :: "char \<Rightarrow> char" where
  "toLowerChar c =
     (let n = (of_char c :: nat) in
      if (65 \<le> n \<and> n \<le> 90) \<or> (192 \<le> n \<and> n \<le> 222 \<and> n \<noteq> 215) then char_of (n + 32)
      else c)"

definition toLowerCase :: "string \<Rightarrow> string" where
  "toLowerCase s = map toLowerChar s"

fun startsWith :: "string \<Rightarrow> string \<Rightarrow> bool" where
  "startsWith s [] = True"
| "startsWith [] (p # ps) = False"
| "startsWith (c # cs) (p # ps) = (c = p \<and> startsWith cs ps)"

fun includesStr :: "string \<Rightarrow> string \<Rightarrow> bool" where
  "includesStr [] sub = (sub = [])"
| "includesStr (c # cs) sub = (startsWith (c # cs) sub \<or> includesStr cs sub)"

definition endsWith :: "string \<Rightarrow> string \<Rightarrow> bool" where
  "endsWith s suf = startsWith (rev s) (rev suf)"

text \<open>\<^verbatim>\<open>Array.prototype.some\<close>.\<close>

definition some :: "'a list \<Rightarrow> ('a \<Rightarrow> bool) \<Rightarrow> bool" where
  "some xs p = list_ex p xs"

text \<open>\<^verbatim>\<open>name.split(' ')\<close>: the pieces between single spaces; the empty string gives one
  empty piece.\<close>

fun split_space :: "string \<Rightarrow> string list" where
  "split_space [] = [[]]"
| "split_space (c # cs) =
     (if c = CHR '' '' then [] # split_space cs
      else (case split_space cs of
              [] \<Rightarrow> [[c]]
            | w # ws \<Rightarrow> (c # w) # ws))"

section \<open>The network as an environment\<close>

text \<open>
  Every \<^verbatim>\<open>fetch\<close> is a request to the outside world. The model records the requests
  issued so far in a trace; the world is a pair of functions that answer a request given
  the trace before it, so that any behaviour of the provider and of the probed hosts
  (also one that changes from call to call) is an instance.

  \<^item> \<^verbatim>\<open>fetch(url, { method: 'HEAD', redirect: 'follow' })\<close> either rejects or resolves
    to a response whose \<^verbatim>\<open>content-type\<close> header is present or absent;
  \<^item> the provider call \<^verbatim>\<open>fetch(url.toString())\<close> of \<^verbatim>\<open>executeStrategies\<close> is
    identified by the strategy's query (key, engine id, \<^verbatim>\<open>num=5\<close>,
    \<^verbatim>\<open>imgSize=large\<close>, \<^verbatim>\<open>imgType=photo\<close>, \<^verbatim>\<open>safe=active\<close> are the same on every call).
    It rejects, or resolves to a response with its \<^verbatim>\<open>ok\<close> flag and a body.
\<close>

datatype request = HeadReq string | SearchReq string

type_synonym trace = "request list"

datatype error = TypeError | NetworkError | SyntaxError

datatype head_response = HeadThrows | HeadOk "string option"

text \<open>
  One result of the provider: \<^verbatim>\<open>item.link\<close> (absent when \<open>None\<close>),
  \<^verbatim>\<open>item.title\<close>, and \<^verbatim>\<open>item.image\<close> with its \<^verbatim>\<open>contextLink\<close> and with
  \<^verbatim>\<open>parseInt(item.image.width)\<close>, \<^verbatim>\<open>parseInt(item.image.height)\<close>, where \<open>None\<close> is
  \<^verbatim>\<open>NaN\<close> and \<open>Some n\<close> is the integer \<open>n\<close> that \<^verbatim>\<open>parseInt\<close> has read.
\<close>

record image_info =
  image_contextLink :: "string option"
  image_width :: "int option"
  image_height :: "int option"

record item =
  item_link :: "string option"
  item_title :: "string option"
  item_image :: "image_info option"

text \<open>
  \<^verbatim>\<open>data.items\<close>: falsy (\<open>ItemsMissing\<close>), an array, or a truthy value that
  \<^verbatim>\<open>for ... of\<close> cannot iterate.
\<close>

datatype items_field = ItemsMissing | ItemsNotIterable | Items "item list"

text \<open>
  \<^verbatim>\<open>await response.json()\<close>: rejects on a malformed body, or gives \<^verbatim>\<open>null\<close>, or an
  object.
\<close>

datatype payload = JsonThrows | DataNull | Data items_field

datatype search_response = SearchThrows | SearchResp bool payload

record network =
  head_probe :: "trace \<Rightarrow> string \<Rightarrow> head_response"
  search_call :: "trace \<Rightarrow> string \<Rightarrow> search_response"

section \<open>The URL classifier: \<^verbatim>\<open>isValidImageUrl\<close>\<close>

definition fetchHead :: "network \<Rightarrow> string \<Rightarrow> trace \<Rightarrow> (error + string option) \<times> trace" where
  "fetchHead net url tr =
     (case head_probe net tr url of
        HeadThrows \<Rightarrow> (Inl NetworkError, tr @ [HeadReq url])
      | HeadOk ct \<Rightarrow> (Inr ct, tr @ [HeadReq url]))"

text \<open>
  The body of each \<^verbatim>\<open>try\<close> block of \<^verbatim>\<open>isValidImageUrl\<close> (lines 39--52 and 62--73,
  the same statements): \<open>Inr (Some b)\<close> is \<^verbatim>\<open>return b\<close>, \<open>Inr None\<close> is
  reaching the end of the block, \<open>Inl e\<close> is an exception.
\<close>

definition probeBlock :: "network \<Rightarrow> string \<Rightarrow> trace \<Rightarrow> (error + bool option) \<times> trace" where
  "probeBlock net url tr =
     (case fetchHead net url tr of
        (Inl e, tr') \<Rightarrow> (Inl e, tr')
      | (Inr ct, tr') \<Rightarrow>
          (let contentType = (case ct of None \<Rightarrow> [] | Some s \<Rightarrow> s) in
           if startsWith contentType ''image/'' then (Inr (Some True), tr')
           else if includesStr contentType ''text/html'' \<or> includesStr contentType ''application/''
             then (Inr (Some False), tr')
           else (Inr None, tr')))"

text \<open>\<^verbatim>\<open>catch (error) { ...; return false; }\<close>\<close>

definition catchReturnFalse :: "(error + bool option) \<times> trace \<Rightarrow> (error + bool option) \<times> trace" where
  "catchReturnFalse r =
     (case r of
        (Inl e, tr') \<Rightarrow> (Inr (Some False), tr')
      | (Inr x, tr') \<Rightarrow> (Inr x, tr'))"

definition imageExtensions :: "string list" where
  "imageExtensions =
     [''.jpg'', ''.jpeg'', ''.png'', ''.gif'', ''.webp'', ''.bmp'', ''.svg'', ''.tiff'', ''.tif'']"

definition imagePathPatterns :: "string list" where
  "imagePathPatterns =
     [''/image/'', ''/img/'', ''/photo/'', ''/picture/'', ''/images/'', ''/photos/'', ''/pictures/'']"

definition imageCdnPatterns :: "string list" where
  "imageCdnPatterns = [''i.imgur.com'', ''cdn.'', ''static.'', ''assets.'', ''media.'', ''uploads/'']"

definition isValidImageUrl :: "network \<Rightarrow> jsval \<Rightarrow> trace \<Rightarrow> (error + bool) \<times> trace" where
  "isValidImageUrl net v tr =
     (if \<not> truthy v \<or> typeof v \<noteq> ''string'' then (Inr False, tr)
      else (case v of
        JStr url \<Rightarrow>
          (let lowerUrl = toLowerCase url;
               hasImageExtension = some imageExtensions (\<lambda>ext. includesStr lowerUrl ext);
               hasImagePath = some imagePathPatterns (\<lambda>pattern. includesStr lowerUrl pattern);
               hasImageCdn = some imageCdnPatterns (\<lambda>pattern. includesStr lowerUrl pattern)
           in
           if hasImageExtension then
             (if endsWith lowerUrl ''.svg'' then (Inr False, tr) else (Inr True, tr))
           else
             (case (if hasImagePath \<or> hasImageCdn then catchReturnFalse (probeBlock net url tr)
                    else (Inr None, tr)) of
                (Inl e, tr1) \<Rightarrow> (Inl e, tr1)
              | (Inr (Some b), tr1) \<Rightarrow> (Inr b, tr1)
              | (Inr None, tr1) \<Rightarrow>
                  (case catchReturnFalse (probeBlock net url tr1) of
                     (Inl e, tr2) \<Rightarrow> (Inl e, tr2)
                   | (Inr (Some b), tr2) \<Rightarrow> (Inr b, tr2)
                   | (Inr None, tr2) \<Rightarrow> (Inr False, tr2))))
      | _ \<Rightarrow> (Inl TypeError, tr)))"

section \<open>The standalone validator: \<^verbatim>\<open>CityService.validateImageUrl\<close>\<close>

definition cityImageExtensions :: "string list" where
  "cityImageExtensions =
     [''.jpg'', ''.jpeg'', ''.png'', ''.gif'', ''.webp'', ''.bmp'', ''.tiff'', ''.tif'']"

definition validateImageUrl :: "network \<Rightarrow> jsval \<Rightarrow> trace \<Rightarrow> (error + bool) \<times> trace" where
  "validateImageUrl net v tr =
     (if \<not> truthy v \<or> typeof v \<noteq> ''string'' then (Inr False, tr)
      else (case v of
        JStr url \<Rightarrow>
          (let lowerUrl = toLowerCase url;
               hasImageExtension = some cityImageExtensions (\<lambda>ext. includesStr lowerUrl ext)
           in
           if hasImageExtension then
             (if endsWith lowerUrl ''.svg'' then (Inr False, tr) else (Inr True, tr))
           else
             (case catchReturnFalse (probeBlock net url tr) of
                (Inl e, tr1) \<Rightarrow> (Inl e, tr1)
              | (Inr (Some b), tr1) \<Rightarrow> (Inr b, tr1)
              | (Inr None, tr1) \<Rightarrow> (Inr False, tr1)))
      | _ \<Rightarrow> (Inl TypeError, tr)))"

section \<open>Numbers\<close>

text \<open>
  The one arithmetic expression of the source is \<^verbatim>\<open>width / height\<close>, on two results
  of \<^verbatim>\<open>parseInt\<close>, compared with the literals \<^verbatim>\<open>1.2\<close> and \<^verbatim>\<open>2.5\<close>. JavaScript
  numbers are IEEE 754 binary64 values: \<open>NaN\<close>, the two infinities, the two zeros, and
  the finite non-zero values, kept here as the rational they denote. The flag of
  \<open>Infinity\<close> and \<open>Zero\<close> is the sign bit (\<open>True\<close> is negative).
\<close>

datatype number = NaN | Infinity bool | Zero bool | Finite rat

text \<open>Rounding a rational to the nearest integer, ties to the even one.\<close>

definition roundHalfEven :: "rat \<Rightarrow> int" where
  "roundHalfEven x =
     (let f = \<lfloor>x\<rfloor>; d = x - of_int f in
      if d < 1 / 2 then f else if 1 / 2 < d then f + 1 else if even f then f else f + 1)"

text \<open>The exponent of a positive rational \<open>a\<close>: the \<open>k\<close> with
  \<open>2 powi k \<le> a\<close> and \<open>a < 2 powi (k + 1)\<close>.\<close>

definition ilog2 :: "rat \<Rightarrow> int" where
  "ilog2 a =
     (case quotient_of a of (p, d) \<Rightarrow>
        (let k = bitlen p - bitlen d in if 2 powi k \<le> a then k else k - 1))"

text \<open>
  The Number value for a rational \<open>q\<close>: \<open>q\<close> rounded to the nearest binary64 value,
  ties to the even significand. The significand has 53 bits, so around \<open>q\<close> the values
  are the multiples of \<open>2 powi (e - 52)\<close> for the exponent \<open>e\<close> of \<open>q\<close>, and of
  \<open>2 powi (- 1074)\<close> below the normal range. The rounded value \<open>m * 2 powi (e - 52)\<close>
  overflows to an infinity when it reaches \<open>2 powi 1024\<close>, that is when \<open>e\<close> exceeds
  1023, or \<open>m = 2 ^ 53\<close> at \<open>e = 1023\<close>; it underflows to a zero when \<open>m = 0\<close>.
\<close>

definition binary64 :: "rat \<Rightarrow> number" where
  "binary64 q =
     (if q = 0 then Zero False
      else
        (let a = \<bar>q\<bar>;
             e = max (ilog2 a) (- 1022);
             ulp = 2 powi (e - 52);
             m = roundHalfEven (a / ulp);
             r = of_int m * ulp
         in if m = 0 then Zero (q < 0)
            else if 1024 \<le> e \<or> (e = 1023 \<and> m = 2 ^ 53) then Infinity (q < 0)
            else Finite (if q < 0 then - r else r)))"

fun negative :: "number \<Rightarrow> bool" where
  "negative NaN = False"
| "negative (Infinity s) = s"
| "negative (Zero s) = s"
| "negative (Finite q) = (q < 0)"

text \<open>The operator \<^verbatim>\<open>/\<close>.\<close>

fun divide64 :: "number \<Rightarrow> number \<Rightarrow> number" where
  "divide64 NaN b = NaN"
| "divide64 a NaN = NaN"
| "divide64 (Infinity s) (Infinity t) = NaN"
| "divide64 (Infinity s) b = Infinity (s \<noteq> negative b)"
| "divide64 a (Infinity t) = Zero (negative a \<noteq> t)"
| "divide64 (Zero s) (Zero t) = NaN"
| "divide64 (Zero s) (Finite y) = Zero (s \<noteq> (y < 0))"
| "divide64 (Finite x) (Zero t) = Infinity ((x < 0) \<noteq> t)"
| "divide64 (Finite x) (Finite y) = binary64 (x / y)"

text \<open>The operator \<^verbatim>\<open><\<close>; \<^verbatim>\<open>a > b\<close> is \<open>less64 b a\<close>.\<close>

fun less64 :: "number \<Rightarrow> number \<Rightarrow> bool" where
  "less64 NaN b = False"
| "less64 a NaN = False"
| "less64 (Infinity s) (Infinity t) = (s \<and> \<not> t)"
| "less64 (Infinity s) b = s"
| "less64 a (Infinity t) = (\<not> t)"
| "less64 (Zero s) (Zero t) = False"
| "less64 (Zero s) (Finite y) = (0 < y)"
| "less64 (Finite x) (Zero t) = (x < 0)"
| "less64 (Finite x) (Finite y) = (x < y)"

text \<open>Truthiness of a number: neither \<^verbatim>\<open>NaN\<close> nor a zero.\<close>

fun truthyNumber :: "number \<Rightarrow> bool" where
  "truthyNumber NaN = False"
| "truthyNumber (Zero s) = False"
| "truthyNumber (Infinity s) = True"
| "truthyNumber (Finite q) = True"

text \<open>
  The Number value for the mathematical integer that \<^verbatim>\<open>parseInt\<close> has read: an
  integer of 400 digits is \<^verbatim>\<open>Infinity\<close>, \<open>2 ^ 53 + 1\<close> is \<open>2 ^ 53\<close>.
\<close>

definition numberOfInt :: "int \<Rightarrow> number" where
  "numberOfInt n = binary64 (of_int n)"

section \<open>The content filter of \<^verbatim>\<open>executeStrategies\<close>\<close>

text \<open>The keyword tables, under the names of the source's local constants.\<close>

definition notRealPhotoKeywords :: "string list" where
  "notRealPhotoKeywords =
     [''picture-frame'', ''picture frame'', ''framed-'', ''-framed'', ''frame-'',
      ''-frame'', ''shirt'', ''t-shirt'', ''tshirt'', ''merchandise'', ''merch'',
      ''print-on'', ''print-on-shirt'', ''on-shirt'', ''on-tshirt'', ''apparel'',
      ''clothing'', ''mug'', ''poster-print'', ''poster print'', ''canvas-print'',
      ''canvas print'', ''art-print'', ''art print'', ''rendered'', ''3d-render'',
      ''3d render'', ''cg-render'', ''cg render'', ''computer-generated'',
      ''artificial'', ''mockup'', ''mock-up'', ''template'', ''placeholder'',
      ''illustration'']"

definition wrongCountries :: "string list" where
  "wrongCountries =
     [''japan'', ''tokyo'', ''china'', ''beijing'', ''shanghai'', ''korea'', ''seoul'']"

definition campusKeywords :: "string list" where
  "campusKeywords =
     [''campus'', ''building'', ''architecture'', ''exterior'', ''university'']"

definition genericKeywords :: "string list" where
  "genericKeywords =
     [''generic'', ''stock-photo'', ''placeholder'', ''template'']"

definition cityscapeKeywords :: "string list" where
  "cityscapeKeywords =
     [''cityscape'', ''skyline'', ''urban-landscape'', ''many-buildings'',
      ''city-view'', ''buildings'', ''downtown'', ''waterfront'', ''landmark'']"

definition singleBuildingKeywords :: "string list" where
  "singleBuildingKeywords =
     [''single-building'', ''one-building'', ''individual-building'']"

definition badDomains :: "string list" where
  "badDomains =
     [''wikimedia.org'', ''wikipedia.org'', ''facebook.com'', ''lookaside.fbsbx.com'']"

definition badExts :: "string list" where
  "badExts =
     [''.svg'', ''.gif'', ''.ico'']"

definition universalBad :: "string list" where
  "universalBad =
     [''logo'', ''crest'', ''seal'', ''map'', ''diagram'', ''clipart'', ''vector'',
      ''black-white'', ''vintage'']"

definition peopleBad :: "string list" where
  "peopleBad =
     [''person'', ''people'', ''crowd'', ''crowds'', ''pedestrian'', ''pedestrians'',
      ''tourist'', ''tourists'', ''visitor'', ''visitors'', ''student'', ''students'',
      ''group'', ''groups'', ''audience'', ''fans'', ''spectator'', ''spectators'',
      ''walking'', ''standing'', ''sitting'', ''gathering'', ''event'', ''festival'',
      ''portrait'', ''portraits'', ''face'', ''faces'', ''human'', ''humans'']"

definition notRealPhoto :: "string list" where
  "notRealPhoto =
     [''picture-frame'', ''picture frame'', ''framed'', ''frame-'', ''-frame'',
      ''shirt'', ''t-shirt'', ''tshirt'', ''merchandise'', ''merch'', ''print-on'',
      ''print-on-shirt'', ''on-shirt'', ''on-tshirt'', ''apparel'', ''clothing'',
      ''mug'', ''poster-print'', ''poster print'', ''canvas-print'', ''canvas print'',
      ''art-print'', ''art print'', ''rendered'', ''3d-render'', ''3d render'',
      ''cg-render'', ''cg render'', ''computer-generated'', ''artificial'', ''mockup'',
      ''mock-up'', ''template'', ''placeholder'', ''illustration'', ''drawing'',
      ''sketch'', ''painting'', ''artwork'']"

definition uniBad :: "string list" where
  "uniBad =
     [''stadium'', ''football'', ''basketball'', ''sport'', ''team'', ''roster'',
      ''coach'', ''mascot'', ''indoor'', ''classroom'', ''cafeteria'']"

definition isForbidden :: "string \<Rightarrow> bool" where
  "isForbidden url =
     (let lower = toLowerCase url in
      some badDomains (\<lambda>d. includesStr lower d) \<or> some badExts (\<lambda>e. endsWith lower e))"

definition hasBadKeywords :: "string \<Rightarrow> string \<Rightarrow> bool" where
  "hasBadKeywords url ty =
     (let lower = toLowerCase url in
      if some universalBad (\<lambda>k. includesStr lower k) then True
      else if some peopleBad (\<lambda>k. includesStr lower k) then True
      else if some notRealPhoto (\<lambda>k. includesStr lower k) then True
      else if ty = ''university'' then some uniBad (\<lambda>k. includesStr lower k)
      else False)"

text \<open>
  \<^verbatim>\<open>const allText = `${imageUrl} ${contextLink} ${title}`.toLowerCase()\<close> with
  \<^verbatim>\<open>contextLink = item.image?.contextLink || ""\<close> and \<^verbatim>\<open>title = item.title || ""\<close>.
\<close>

definition allTextOf :: "item \<Rightarrow> string" where
  "allTextOf it =
     (let imageUrl = (case item_link it of None \<Rightarrow> ''undefined'' | Some u \<Rightarrow> u);
          contextLink = (case item_image it of
                           None \<Rightarrow> []
                         | Some im \<Rightarrow> (case image_contextLink im of None \<Rightarrow> [] | Some c \<Rightarrow> c));
          title = (case item_title it of None \<Rightarrow> [] | Some t \<Rightarrow> t)
      in toLowerCase (imageUrl @ '' '' @ contextLink @ '' '' @ title))"

text \<open>
  Stage 3, location validation (lines 254--299): \<open>True\<close> when the stage executes
  \<^verbatim>\<open>continue\<close>. The whole stage is inside \<^verbatim>\<open>if (name)\<close>.
\<close>

definition locationMismatch :: "string \<Rightarrow> string \<Rightarrow> string \<Rightarrow> string \<Rightarrow> bool" where
  "locationMismatch ty name country allText =
     (if name \<noteq> [] then
        (let nameLower = toLowerCase name;
             nameWords = filter (\<lambda>w. length w > 3) (split_space name);
             hasUniversityName = some nameWords (\<lambda>word. includesStr allText (toLowerCase word))
         in
         if ty = ''university'' \<and> \<not> hasUniversityName then True
         else if ty = ''city'' then
           (let hasCityName = includesStr allText nameLower in
            if \<not> hasCityName then True
            else if country \<noteq> [] then
              (let hasCountry = includesStr allText (toLowerCase country);
                   hasWrongCountry = some wrongCountries (\<lambda>wc. includesStr allText wc)
               in hasWrongCountry \<and> \<not> hasCountry)
            else False)
         else False)
      else False)"

text \<open>
  Stage 6, aspect ratio (lines 343--352). The arguments are the two results of
  \<^verbatim>\<open>parseInt\<close>: \<open>None\<close> is \<^verbatim>\<open>NaN\<close>, \<open>Some n\<close> is the Number value for the
  integer \<open>n\<close>. \<^verbatim>\<open>if (width && height)\<close> holds when both numbers are truthy; the
  quotient and the two comparisons are those of binary64, with the literals \<^verbatim>\<open>1.2\<close>
  and \<^verbatim>\<open>2.5\<close> rounded as the source text is.
\<close>

definition badAspect :: "int option \<Rightarrow> int option \<Rightarrow> bool" where
  "badAspect width height =
     (case (width, height) of
        (Some w, Some h) \<Rightarrow>
          (if truthyNumber (numberOfInt w) \<and> truthyNumber (numberOfInt h) then
             (let aspect = divide64 (numberOfInt w) (numberOfInt h) in
              less64 aspect (binary64 (12 / 10)) \<or> less64 (binary64 (25 / 10)) aspect)
           else False)
      | _ \<Rightarrow> False)"

text \<open>
  The body of the loop over \<^verbatim>\<open>data.items\<close> (lines 223--367) for one item:
  \<open>Inr Continue\<close> is \<^verbatim>\<open>continue\<close>, \<open>Inr (Return u)\<close> is \<^verbatim>\<open>return imageUrl\<close>,
  \<open>Inl e\<close> is an exception: \<^verbatim>\<open>url.toLowerCase()\<close> in \<^verbatim>\<open>isForbidden\<close> when
  \<^verbatim>\<open>item.link\<close> is absent, \<^verbatim>\<open>item.image.width\<close> when \<^verbatim>\<open>item.image\<close> is absent.
\<close>

datatype outcome = Continue | Return string

definition checkItem ::
  "network \<Rightarrow> string \<Rightarrow> string \<Rightarrow> string \<Rightarrow> item \<Rightarrow> trace \<Rightarrow> (error + outcome) \<times> trace" where
  "checkItem net ty name country it tr =
     (let allText = allTextOf it in
      case item_link it of
        None \<Rightarrow> (Inl TypeError, tr)
      | Some imageUrl \<Rightarrow>
          if isForbidden imageUrl then (Inr Continue, tr)
          else if hasBadKeywords imageUrl ty then (Inr Continue, tr)
          else if some notRealPhotoKeywords (\<lambda>keyword. includesStr allText keyword)
            then (Inr Continue, tr)
          else if locationMismatch ty name country allText then (Inr Continue, tr)
          else if ty = ''university'' \<and> some genericKeywords (\<lambda>keyword. includesStr allText keyword)
            then (Inr Continue, tr)
          else if ty = ''city''
                  \<and> some singleBuildingKeywords (\<lambda>keyword. includesStr allText keyword)
                  \<and> \<not> some cityscapeKeywords (\<lambda>keyword. includesStr allText keyword)
            then (Inr Continue, tr)
          else
            (case item_image it of
               None \<Rightarrow> (Inl TypeError, tr)
             | Some im \<Rightarrow>
                 if badAspect (image_width im) (image_height im) then (Inr Continue, tr)
                 else
                   (case isValidImageUrl net (JStr imageUrl) tr of
                      (Inl e, tr') \<Rightarrow> (Inl e, tr')
                    | (Inr isValidImage, tr') \<Rightarrow>
                        if \<not> isValidImage then (Inr Continue, tr')
                        else (Inr (Return imageUrl), tr'))))"

text \<open>
  \<^verbatim>\<open>for (const item of data.items)\<close>: \<open>Inr (Some u)\<close> is the \<^verbatim>\<open>return\<close> of
  \<^verbatim>\<open>executeStrategies\<close>, \<open>Inr None\<close> the end of the loop.
\<close>

fun processItems ::
  "network \<Rightarrow> string \<Rightarrow> string \<Rightarrow> string \<Rightarrow> item list \<Rightarrow> trace \<Rightarrow> (error + string option) \<times> trace" where
  "processItems net ty name country [] tr = (Inr None, tr)"
| "processItems net ty name country (it # its) tr =
     (case checkItem net ty name country it tr of
        (Inl e, tr') \<Rightarrow> (Inl e, tr')
      | (Inr (Return u), tr') \<Rightarrow> (Inr (Some u), tr')
      | (Inr Continue, tr') \<Rightarrow> processItems net ty name country its tr')"

section \<open>Strategies and \<^verbatim>\<open>executeStrategies\<close>\<close>

text \<open>A strategy object \<^verbatim>\<open>{ name, query }\<close>.\<close>

record strategy =
  strategy_name :: string
  strategy_query :: string

text \<open>
  The \<^verbatim>\<open>try\<close> block of one strategy (lines 198--367): \<open>Inr None\<close> is
  \<^verbatim>\<open>continue\<close> or the end of the block, \<open>Inr (Some u)\<close> is \<^verbatim>\<open>return imageUrl\<close>.
\<close>

definition strategyBody ::
  "network \<Rightarrow> string \<Rightarrow> string \<Rightarrow> string \<Rightarrow> strategy \<Rightarrow> trace \<Rightarrow> (error + string option) \<times> trace" where
  "strategyBody net ty name country s tr =
     (let tr1 = tr @ [SearchReq (strategy_query s)] in
      case search_call net tr (strategy_query s) of
        SearchThrows \<Rightarrow> (Inl NetworkError, tr1)
      | SearchResp ok body \<Rightarrow>
          if \<not> ok then (Inr None, tr1)
          else
            (case body of
               JsonThrows \<Rightarrow> (Inl SyntaxError, tr1)
             | DataNull \<Rightarrow> (Inl TypeError, tr1)
             | Data items \<Rightarrow>
                 (case items of
                    ItemsMissing \<Rightarrow> (Inr None, tr1)
                  | ItemsNotIterable \<Rightarrow> (Inl TypeError, tr1)
                  | Items its \<Rightarrow>
                      if its = [] then (Inr None, tr1)
                      else processItems net ty name country its tr1)))"

text \<open>
  \<^verbatim>\<open>for (const strategy of strategies) { try { ... } catch (error) { ... } }\<close> and
  the final \<^verbatim>\<open>return null\<close>.
\<close>

fun executeStrategies ::
  "network \<Rightarrow> strategy list \<Rightarrow> string \<Rightarrow> string \<Rightarrow> string \<Rightarrow> trace \<Rightarrow> (error + string option) \<times> trace" where
  "executeStrategies net [] ty name country tr = (Inr None, tr)"
| "executeStrategies net (s # ss) ty name country tr =
     (case strategyBody net ty name country s tr of
        (Inl e, tr') \<Rightarrow> executeStrategies net ss ty name country tr'
      | (Inr (Some u), tr') \<Rightarrow> (Inr (Some u), tr')
      | (Inr None, tr') \<Rightarrow> executeStrategies net ss ty name country tr')"

definition quoted :: "string \<Rightarrow> string" where
  "quoted s = CHR 0x22 # s @ [CHR 0x22]"

definition universityStrategies :: "string \<Rightarrow> strategy list" where
  \<open>universityStrategies universityName =
     [
      \<lparr>strategy_name = ''Distinctive Campus Building (Best)'',
       strategy_query = quoted universityName @ '' campus building distinctive architecture exterior photo -logo -crest -map -black -white -vintage -drawing -plan -diagram -person -people -crowd -pedestrian -tourist -student -generic -frame -framed -shirt -merchandise -print -rendered -mockup -template''\<rparr>,
      \<lparr>strategy_name = ''Iconic Main Building'',
       strategy_query = quoted universityName @ '' main building iconic architecture campus exterior photo -sports -football -stadium -crowd -logo -person -people -pedestrian -tourist -student -group -generic -frame -framed -shirt -merchandise -print -rendered -mockup -template''\<rparr>,
      \<lparr>strategy_name = ''Campus Architecture Building'',
       strategy_query = quoted universityName @ '' campus architecture building exterior daylight photo -interior -books -logo -person -people -crowd -pedestrian -generic -frame -framed -shirt -merchandise -print -rendered -mockup -template''\<rparr>,
      \<lparr>strategy_name = ''University Building Exterior'',
       strategy_query = quoted universityName @ '' university building exterior architecture photo -logo -crest -person -people -portrait -indoor -crowd -pedestrian -tourist -student -group -generic -frame -framed -shirt -merchandise -print -rendered -mockup -template''\<rparr>,
      \<lparr>strategy_name = ''Campus View with Building'',
       strategy_query = quoted universityName @ '' campus view building architecture photo -map -layout -plan -diagram -person -people -crowd -generic -frame -framed -shirt -merchandise -print -rendered -mockup -template''\<rparr>]\<close>

definition cityStrategies :: "string \<Rightarrow> string \<Rightarrow> strategy list" where
  \<open>cityStrategies cityName country =
     [
      \<lparr>strategy_name = ''Cityscape Skyline (Best)'',
       strategy_query =
         (if country \<noteq> [] then quoted cityName @ '' '' @ quoted country @ '' city skyline many buildings cityscape photo -map -weather -radar -person -people -crowd -pedestrian -tourist -visitor -walking -standing -single -one -frame -framed -shirt -merchandise -print -rendered -mockup -template''
          else quoted cityName @ '' city skyline many buildings cityscape photo -map -weather -radar -person -people -crowd -pedestrian -tourist -visitor -walking -standing -single -one -frame -framed -shirt -merchandise -print -rendered -mockup -template'')\<rparr>,
      \<lparr>strategy_name = ''Waterfront Cityscape'',
       strategy_query =
         (if country \<noteq> [] then quoted cityName @ '' '' @ quoted country @ '' waterfront cityscape buildings skyline photo -map -aerial -person -people -crowd -pedestrian -tourist -visitor -walking -single -one -frame -framed -shirt -merchandise -print -rendered -mockup -template''
          else quoted cityName @ '' waterfront cityscape buildings skyline photo -map -aerial -person -people -crowd -pedestrian -tourist -visitor -walking -single -one -frame -framed -shirt -merchandise -print -rendered -mockup -template'')\<rparr>,
      \<lparr>strategy_name = ''Urban Cityscape'',
       strategy_query =
         (if country \<noteq> [] then quoted cityName @ '' '' @ quoted country @ '' urban cityscape many buildings city view daylight photo -traffic -map -person -people -crowd -pedestrian -tourist -visitor -walking -single -one -frame -framed -shirt -merchandise -print -rendered -mockup -template''
          else quoted cityName @ '' urban cityscape many buildings city view daylight photo -traffic -map -person -people -crowd -pedestrian -tourist -visitor -walking -single -one -frame -framed -shirt -merchandise -print -rendered -mockup -template'')\<rparr>,
      \<lparr>strategy_name = ''Landmark with City Buildings'',
       strategy_query =
         (if country \<noteq> [] then quoted cityName @ '' '' @ quoted country @ '' landmark cityscape buildings urban view photo -map -plan -person -people -crowd -pedestrian -visitor -single -one -frame -framed -shirt -merchandise -print -rendered -mockup -template''
          else quoted cityName @ '' landmark cityscape buildings urban view photo -map -plan -person -people -crowd -pedestrian -visitor -single -one -frame -framed -shirt -merchandise -print -rendered -mockup -template'')\<rparr>,
      \<lparr>strategy_name = ''Downtown Cityscape'',
       strategy_query =
         (if country \<noteq> [] then quoted cityName @ '' '' @ quoted country @ '' downtown cityscape buildings architecture photo -map -person -people -crowd -pedestrian -visitor -single -one -frame -framed -shirt -merchandise -print -rendered -mockup -template''
          else quoted cityName @ '' downtown cityscape buildings architecture photo -map -person -people -crowd -pedestrian -visitor -single -one -frame -framed -shirt -merchandise -print -rendered -mockup -template'')\<rparr>]\<close>

definition searchUniversityImage :: "network \<Rightarrow> string \<Rightarrow> trace \<Rightarrow> (error + string option) \<times> trace" where
  "searchUniversityImage net universityName tr =
     executeStrategies net (universityStrategies universityName) ''university'' universityName [] tr"

definition searchCityImage ::
  "network \<Rightarrow> string \<Rightarrow> string \<Rightarrow> trace \<Rightarrow> (error + string option) \<times> trace" where
  "searchCityImage net cityName country tr =
     executeStrategies net (cityStrategies cityName country) ''city'' cityName country tr"

section \<open>\<^verbatim>\<open>CityService.extractCityData\<close>: the city image\<close>

text \<open>
  The validated record. Only \<^verbatim>\<open>city_image\<close> (a string in \<^verbatim>\<open>CitySchema\<close>) is read or
  written by the image step; every other field of the record is the extension part of
  the record type.
\<close>

record city_data =
  city_image :: string

text \<open>
  Lines 373--395 of \<^verbatim>\<open>src/cityService.js\<close>, the statements of
  \<^verbatim>\<open>extractCityData\<close> after \<^verbatim>\<open>_postProcess\<close>. \<open>hasImageSearchService\<close> is
  \<^verbatim>\<open>this.imageSearchService\<close> being non-null. An exception leaves through the
  \<^verbatim>\<open>catch\<close> of \<^verbatim>\<open>extractCityData\<close>, which throws again.
\<close>

definition extractCityData_image ::
  "network \<Rightarrow> bool \<Rightarrow> string \<Rightarrow> string \<Rightarrow> 'a city_data_scheme \<Rightarrow> trace
     \<Rightarrow> (error + 'a city_data_scheme) \<times> trace" where
  "extractCityData_image net hasImageSearchService city country validatedData tr =
     (if hasImageSearchService then
        (case searchCityImage net city country tr of
           (Inl e, tr') \<Rightarrow> (Inl e, tr')
         | (Inr cityImage, tr') \<Rightarrow>
             (case cityImage of
                None \<Rightarrow> (Inr validatedData, tr')
              | Some u \<Rightarrow>
                  if u \<noteq> [] then (Inr (validatedData\<lparr>city_image := u\<rparr>), tr')
                  else (Inr validatedData, tr')))
      else if city_image validatedData \<noteq> [] then
        (case validateImageUrl net (JStr (city_image validatedData)) tr of
           (Inl e, tr') \<Rightarrow> (Inl e, tr')
         | (Inr isValid, tr') \<Rightarrow>
             if \<not> isValid then (Inr (validatedData\<lparr>city_image := []\<rparr>), tr')
             else (Inr validatedData, tr'))
      else (Inr validatedData, tr))"

section \<open>The request controllers\<close>

text \<open>
  \<^verbatim>\<open>CityController.extract\<close> and \<^verbatim>\<open>UniversityController.extract\<close>: the fields of
  \<^verbatim>\<open>req.body\<close> are arguments, the result is the HTTP status sent. The service method
  (\<^verbatim>\<open>extractCityData\<close>, \<^verbatim>\<open>extractUniversityData\<close>) and the success of the schema's
  \<^verbatim>\<open>parse\<close> are parameters; an exception of either is answered with 500.
\<close>

definition CityController_extract ::
  "(string \<Rightarrow> jsval \<Rightarrow> string \<Rightarrow> trace \<Rightarrow> (error + 'd) \<times> trace) \<Rightarrow> ('d \<Rightarrow> bool)
     \<Rightarrow> jsval \<Rightarrow> jsval \<Rightarrow> jsval \<Rightarrow> trace \<Rightarrow> nat \<times> trace" where
  "CityController_extract extractCityData schemaParses city state country tr =
     (if \<not> truthy city \<or> typeof city \<noteq> ''string'' then (400, tr)
      else if \<not> truthy country \<or> typeof country \<noteq> ''string'' then (400, tr)
      else (case (city, country) of
        (JStr c, JStr k) \<Rightarrow>
          (case extractCityData c (if truthy state then state else Null) k tr of
             (Inl e, tr') \<Rightarrow> (500, tr')
           | (Inr cityData, tr') \<Rightarrow> if schemaParses cityData then (200, tr') else (500, tr'))
      | _ \<Rightarrow> (500, tr)))"

definition UniversityController_extract ::
  "(string \<Rightarrow> trace \<Rightarrow> (error + 'd) \<times> trace) \<Rightarrow> ('d \<Rightarrow> bool)
     \<Rightarrow> jsval \<Rightarrow> trace \<Rightarrow> nat \<times> trace" where
  "UniversityController_extract extractUniversityData schemaParses university tr =
     (if \<not> truthy university \<or> typeof university \<noteq> ''string'' then (400, tr)
      else (case university of
        JStr u \<Rightarrow>
          (case extractUniversityData u tr of
             (Inl e, tr') \<Rightarrow> (500, tr')
           | (Inr universityData, tr') \<Rightarrow>
               if schemaParses universityData then (200, tr') else (500, tr'))
      | _ \<Rightarrow> (500, tr)))"

section \<open>Notions used to state the properties\<close>

text \<open>
  \<open>probed net tr tr' u r\<close>: between the traces \<open>tr\<close> and \<open>tr'\<close> a header probe of
  \<open>u\<close> was issued and the world answered it with \<open>r\<close>.
\<close>

definition probed :: "network \<Rightarrow> trace \<Rightarrow> trace \<Rightarrow> string \<Rightarrow> head_response \<Rightarrow> bool" where
  "probed net tr tr' u r =
     list_ex (\<lambda>i. tr' ! i = HeadReq u \<and> head_probe net (take i tr') u = r)
       [length tr ..< length tr']"

text \<open>What one probe decides: the \<^verbatim>\<open>try\<close> block followed by its \<^verbatim>\<open>catch\<close>.\<close>

fun classify :: "head_response \<Rightarrow> bool option" where
  "classify HeadThrows = Some False"
| "classify (HeadOk ct) =
     (let contentType = (case ct of None \<Rightarrow> [] | Some s \<Rightarrow> s) in
      if startsWith contentType ''image/'' then Some True
      else if includesStr contentType ''text/html'' \<or> includesStr contentType ''application/''
        then Some False
      else None)"

definition hasImageExtension :: "string \<Rightarrow> bool" where
  "hasImageExtension url = some imageExtensions (\<lambda>ext. includesStr (toLowerCase url) ext)"

definition hasImagePattern :: "string \<Rightarrow> bool" where
  "hasImagePattern url =
     (some imagePathPatterns (\<lambda>pattern. includesStr (toLowerCase url) pattern)
      \<or> some imageCdnPatterns (\<lambda>pattern. includesStr (toLowerCase url) pattern))"

text \<open>The image-file extensions of \<^verbatim>\<open>isValidImageUrl\<close> without the vector format.\<close>

definition plainExtensions :: "string list" where
  "plainExtensions =
     [''.jpg'', ''.jpeg'', ''.png'', ''.gif'', ''.webp'', ''.bmp'', ''.tiff'', ''.tif'']"

text \<open>
  The stages of the loop body before the aspect ratio (forbidden source, keyword
  checks, location, generic and single-building keywords) all let the item through.
\<close>

definition keywordStagesPass :: "string \<Rightarrow> string \<Rightarrow> string \<Rightarrow> item \<Rightarrow> string \<Rightarrow> bool" where
  "keywordStagesPass ty name country it url =
     (\<not> isForbidden url
      \<and> \<not> hasBadKeywords url ty
      \<and> \<not> some notRealPhotoKeywords (\<lambda>keyword. includesStr (allTextOf it) keyword)
      \<and> \<not> locationMismatch ty name country (allTextOf it)
      \<and> \<not> (ty = ''university''
             \<and> some genericKeywords (\<lambda>keyword. includesStr (allTextOf it) keyword))
      \<and> \<not> (ty = ''city''
             \<and> some singleBuildingKeywords (\<lambda>keyword. includesStr (allTextOf it) keyword)
             \<and> \<not> some cityscapeKeywords (\<lambda>keyword. includesStr (allTextOf it) keyword)))"

text \<open>
  A provider call that yields no candidate: transport error, non-success status,
  malformed body, or a body without a non-empty \<^verbatim>\<open>items\<close> array.
\<close>

fun providerFails :: "search_response \<Rightarrow> bool" where
  "providerFails SearchThrows = True"
| "providerFails (SearchResp ok body) =
     (if \<not> ok then True
      else (case body of
              JsonThrows \<Rightarrow> True
            | DataNull \<Rightarrow> True
            | Data items \<Rightarrow> (case items of Items its \<Rightarrow> its = [] | _ \<Rightarrow> True)))"

text \<open>
  The path of a URL as far as a string shows it: the URL up to its query (\<open>?\<close>) or
  fragment (\<open>#\<close>).
\<close>

definition pathOf :: "string \<Rightarrow> string" where
  "pathOf url = takeWhile (\<lambda>c. c \<noteq> CHR ''?'' \<and> c \<noteq> CHR ''#'') url"

text \<open>
  The tokens of a text, read as its words: the maximal runs of letters and digits.
\<close>

definition isWordChar :: "char \<Rightarrow> bool" where
  "isWordChar c =
     (let n = (of_char c :: nat) in
      (48 \<le> n \<and> n \<le> 57) \<or> (65 \<le> n \<and> n \<le> 90) \<or> (97 \<le> n \<and> n \<le> 122)
      \<or> (192 \<le> n \<and> n \<noteq> 215 \<and> n \<noteq> 247))"

fun wordsOf :: "string \<Rightarrow> string list" where
  "wordsOf [] = [[]]"
| "wordsOf (c # cs) =
     (if isWordChar c then
        (case wordsOf cs of
           [] \<Rightarrow> [[c]]
         | w # ws \<Rightarrow> (c # w) # ws)
      else [] # wordsOf cs)"

definition tokens :: "string \<Rightarrow> string list" where
  "tokens s = filter (\<lambda>w. w \<noteq> []) (wordsOf s)"

section \<open>Example worlds and inputs\<close>

text \<open>A world in which every request fails in transport.\<close>

definition deadNetwork :: network where
  "deadNetwork = \<lparr>head_probe = (\<lambda>tr u. HeadThrows), search_call = (\<lambda>tr q. SearchThrows)\<rparr>"

text \<open>A world in which every probed URL is an HTML page.\<close>

definition htmlNetwork :: network where
  "htmlNetwork =
     \<lparr>head_probe = (\<lambda>tr u. HeadOk (Some ''text/html; charset=utf-8'')),
      search_call = (\<lambda>tr q. SearchThrows)\<rparr>"

text \<open>A world whose provider answers every query with the given items and whose probes
  all fail.\<close>

definition providerNetwork :: "item list \<Rightarrow> network" where
  "providerNetwork its =
     \<lparr>head_probe = (\<lambda>tr u. HeadThrows),
      search_call = (\<lambda>tr q. SearchResp True (Data (Items its)))\<rparr>"

text \<open>The provider of the end-to-end scenario: nothing for the first query, one
  candidate afterwards.\<close>

definition skylineCandidate :: item where
  "skylineCandidate =
     \<lparr>item_link = Some ''https://example.com/a.jpg'',
      item_title = Some ''Example City Canada skyline cityscape'',
      item_image = Some \<lparr>image_contextLink = None, image_width = Some 1600,
                          image_height = Some 900\<rparr>\<rparr>"

definition secondQueryNetwork :: network where
  "secondQueryNetwork =
     \<lparr>head_probe = (\<lambda>tr u. HeadThrows),
      search_call = (\<lambda>tr q. if tr = [] then SearchResp True (Data (Items []))
                             else SearchResp True (Data (Items [skylineCandidate])))\<rparr>"

text \<open>More candidates: a portrait photograph of a campus, a candidate whose metadata
  gives width 0, a candidate that mentions Tokyo, and one for a three-letter name.\<close>

definition portraitCandidate :: item where
  "portraitCandidate =
     \<lparr>item_link = Some ''https://example.edu/main-hall.jpg'',
      item_title = Some ''Example University campus building exterior'',
      item_image = Some \<lparr>image_contextLink = Some ''https://example.edu/about'',
                          image_width = Some 800, image_height = Some 1000\<rparr>\<rparr>"

definition zeroWidthCandidate :: item where
  "zeroWidthCandidate =
     \<lparr>item_link = Some ''https://example.com/a.jpg'',
      item_title = Some ''Example City Canada skyline cityscape'',
      item_image = Some \<lparr>image_contextLink = None, image_width = Some 0,
                          image_height = Some 900\<rparr>\<rparr>"

definition tokyoCandidate :: item where
  "tokyoCandidate =
     \<lparr>item_link = Some ''https://example.com/tower.jpg'',
      item_title = Some ''Springfield skyline seen from Tokyo'',
      item_image = Some \<lparr>image_contextLink = None, image_width = Some 1600,
                          image_height = Some 900\<rparr>\<rparr>"

definition thousandCandidate :: item where
  "thousandCandidate =
     \<lparr>item_link = Some ''https://example.com/tower.jpg'',
      item_title = Some ''Springfield skyline, a thousand lights like Tokyo'',
      item_image = Some \<lparr>image_contextLink = None, image_width = Some 1600,
                          image_height = Some 900\<rparr>\<rparr>"

text \<open>A candidate for Wien, Austria, with the country named in German: the title has
  the name in lower case, beginning with U+00F6, and mentions Tokyo.\<close>

definition austriaCandidate :: item where
  "austriaCandidate =
     \<lparr>item_link = Some ''https://example.com/ring.jpg'',
      item_title = Some (''Wien skyline '' @ [CHR 0xF6] @ ''sterreich, not tokyo''),
      item_image = Some \<lparr>image_contextLink = None, image_width = Some 1600,
                          image_height = Some 900\<rparr>\<rparr>"

text \<open>A dimension of 309 digits, beyond the finite binary64 values.\<close>

definition hugeDimension :: int where
  "hugeDimension = 2 ^ 1024"

definition domeCandidate :: item where
  "domeCandidate =
     \<lparr>item_link = Some ''https://example.edu/dome.jpg'',
      item_title = Some ''MIT campus building'',
      item_image = Some \<lparr>image_contextLink = None, image_width = Some 1600,
                          image_height = Some 900\<rparr>\<rparr>"

text \<open>A malformed result: no \<^verbatim>\<open>link\<close>.\<close>

definition linklessCandidate :: item where
  "linklessCandidate =
     \<lparr>item_link = None, item_title = Some ''Example City skyline'', item_image = None\<rparr>"

definition firstStrategy :: strategy where
  "firstStrategy = \<lparr>strategy_name = ''first'', strategy_query = ''q1''\<rparr>"

definition secondStrategy :: strategy where
  "secondStrategy = \<lparr>strategy_name = ''second'', strategy_query = ''q2''\<rparr>"

definition geminiCityData :: city_data where
  "geminiCityData = \<lparr>city_image = ''https://example.com/visit/city''\<rparr>"

section \<open>Strings\<close>

lemma startsWith_prefix: "startsWith s p \<longleftrightarrow> prefix p s"
  by (induction s p rule: startsWith.induct) auto

lemma includesStr_sublist: "includesStr s sub \<longleftrightarrow> sublist sub s"
  by (induction s) (auto simp: startsWith_prefix sublist_Cons_right)

lemma endsWith_suffix: "endsWith s suf \<longleftrightarrow> suffix suf s"
  by (simp add: endsWith_def startsWith_prefix suffix_to_prefix)

lemma some_iff: "some xs p \<longleftrightarrow> (\<exists>x\<in>set xs. p x)"
  by (simp add: some_def list_ex_iff)

lemma endsWith_includesStr: "endsWith s suf \<Longrightarrow> includesStr s suf"
  by (auto simp: endsWith_suffix includesStr_sublist suffix_def sublist_def intro: exI[of _ "[]"])

lemma startsWith_includesStr: "startsWith s p \<Longrightarrow> includesStr s p"
  by (cases s; cases p) auto

section \<open>The URL classifier\<close>

lemma probed_same: "\<not> probed net tr tr u r"
  by (simp add: probed_def)

lemma probed_one:
  "probed net tr (tr @ [HeadReq u]) u' r \<longleftrightarrow> u' = u \<and> head_probe net tr u = r"
  by (auto simp: probed_def)

lemma probed_two:
  "probed net tr (tr @ [HeadReq u, HeadReq u]) u' r \<longleftrightarrow>
     u' = u \<and> (head_probe net tr u = r \<or> head_probe net (tr @ [HeadReq u]) u = r)"
  by (auto simp: probed_def nth_append upt_rec[of "length tr"])

lemma catch_probeBlock:
  "catchReturnFalse (probeBlock net url tr) =
     (Inr (classify (head_probe net tr url)), tr @ [HeadReq url])"
  by (simp add: catchReturnFalse_def probeBlock_def fetchHead_def Let_def
      split: head_response.splits)

lemma isValidImageUrl_non_string:
  "\<not> (\<exists>s. v = JStr s \<and> s \<noteq> []) \<Longrightarrow> isValidImageUrl net v tr = (Inr False, tr)"
  by (cases v) (auto simp: isValidImageUrl_def)

lemma validateImageUrl_non_string:
  "\<not> (\<exists>s. v = JStr s \<and> s \<noteq> []) \<Longrightarrow> validateImageUrl net v tr = (Inr False, tr)"
  by (cases v) (auto simp: validateImageUrl_def)

lemma isValidImageUrl_empty: "isValidImageUrl net (JStr []) tr = (Inr False, tr)"
  by (simp add: isValidImageUrl_def)

lemma isValidImageUrl_extension:
  "url \<noteq> [] \<Longrightarrow> hasImageExtension url \<Longrightarrow>
     isValidImageUrl net (JStr url) tr = (Inr (\<not> endsWith (toLowerCase url) ''.svg''), tr)"
  by (simp add: isValidImageUrl_def hasImageExtension_def Let_def)

text \<open>Without an image extension the classifier probes once or twice.\<close>

lemma isValidImageUrl_probe:
  "url \<noteq> [] \<Longrightarrow> \<not> hasImageExtension url \<Longrightarrow>
     isValidImageUrl net (JStr url) tr =
       (case classify (head_probe net tr url) of
          Some b \<Rightarrow> (Inr b, tr @ [HeadReq url])
        | None \<Rightarrow>
            (if hasImagePattern url then
               (case classify (head_probe net (tr @ [HeadReq url]) url) of
                  Some b \<Rightarrow> (Inr b, tr @ [HeadReq url, HeadReq url])
                | None \<Rightarrow> (Inr False, tr @ [HeadReq url, HeadReq url]))
             else (Inr False, tr @ [HeadReq url])))"
  by (simp add: isValidImageUrl_def hasImageExtension_def hasImagePattern_def Let_def
      catch_probeBlock split: option.splits)

lemma classify_throws: "classify r = Some True \<Longrightarrow> r \<noteq> HeadThrows"
  by (cases r) auto

lemma classify_html:
  assumes "startsWith ct ''text/html''"
  shows "classify (HeadOk (Some ct)) = Some False"
proof -
  from assms obtain rest where ct: "ct = ''text/html'' @ rest"
    by (auto simp: startsWith_prefix prefix_def)
  have "\<not> startsWith ct ''image/''" by (simp add: ct)
  moreover have "includesStr ct ''text/html''"
    using assms by (rule startsWith_includesStr)
  ultimately show ?thesis by simp
qed

lemma plain_not_svg:
  "ext \<in> set plainExtensions \<Longrightarrow> suffix ext s \<Longrightarrow> \<not> suffix ''.svg'' s"
  by (auto simp: plainExtensions_def suffix_def append_eq_append_conv2 Cons_eq_append_conv
      append_eq_Cons_conv)

lemma pathOf_includes:
  assumes "endsWith (toLowerCase (pathOf url)) ext"
  shows "includesStr (toLowerCase url) ext"
proof -
  let ?p = "\<lambda>c. c \<noteq> CHR ''?'' \<and> c \<noteq> CHR ''#''"
  have "url = pathOf url @ dropWhile ?p url" by (simp add: pathOf_def)
  then have "toLowerCase url = toLowerCase (pathOf url) @ toLowerCase (dropWhile ?p url)"
    by (metis map_append toLowerCase_def)
  moreover from assms obtain front where "toLowerCase (pathOf url) = front @ ext"
    by (auto simp: endsWith_suffix suffix_def)
  ultimately have "toLowerCase url = front @ ext @ toLowerCase (dropWhile ?p url)" by simp
  then show ?thesis by (auto simp: includesStr_sublist sublist_def)
qed

lemma extension_decides:
  assumes "ext \<in> set imageExtensions" and "includesStr (toLowerCase url) ext"
  shows "isValidImageUrl net (JStr url) tr = (Inr (\<not> endsWith (toLowerCase url) ''.svg''), tr)"
proof -
  from assms(1) have "ext \<noteq> []" by (auto simp: imageExtensions_def)
  with assms(2) have ne: "url \<noteq> []" by (auto simp: toLowerCase_def)
  from assms have "hasImageExtension url" by (auto simp: hasImageExtension_def some_iff)
  with ne show ?thesis by (rule isValidImageUrl_extension)
qed

text \<open>
  Claim C3, as stated, fails. The path of \<^verbatim>\<open>https://example.com/a.jpg?ref=logo.svg\<close>
  ends in \<^verbatim>\<open>.jpg\<close>, and \<^verbatim>\<open>isValidImageUrl\<close> rejects the URL, without a probe.
\<close>

theorem svg_query_rejected:
  "''.jpg'' \<in> set plainExtensions
   \<and> endsWith (toLowerCase (pathOf ''https://example.com/a.jpg?ref=logo.svg'')) ''.jpg''
   \<and> isValidImageUrl deadNetwork (JStr ''https://example.com/a.jpg?ref=logo.svg'') []
       = (Inr False, [])"
  by code_simp

text \<open>
  Claim C3, amended. \<^verbatim>\<open>isValidImageUrl\<close> tests the whole URL string in lower case,
  not its path. A URL that contains one of the nine image-file extensions anywhere is
  decided without any network probe (the trace is unchanged): accepted, unless the
  string ends in \<^verbatim>\<open>.svg\<close>, and then rejected. In particular a URL whose path ends
  in an extension other than \<^verbatim>\<open>.svg\<close> is accepted unless the whole string ends in
  \<^verbatim>\<open>.svg\<close>, and a URL that itself ends in such an extension is accepted. Whenever a
  header probe that it issued for the URL was answered with a content type beginning
  with \<^verbatim>\<open>text/html\<close>, it returns \<^verbatim>\<open>false\<close>.
\<close>

theorem isValidImageUrl_extension_and_html:
  "(ext \<in> set imageExtensions \<and> includesStr (toLowerCase url) ext
      \<longrightarrow> isValidImageUrl net (JStr url) tr
          = (Inr (\<not> endsWith (toLowerCase url) ''.svg''), tr))
   \<and> (ext \<in> set plainExtensions \<and> endsWith (toLowerCase (pathOf url)) ext
        \<and> \<not> endsWith (toLowerCase url) ''.svg''
      \<longrightarrow> isValidImageUrl net (JStr url) tr = (Inr True, tr))
   \<and> (ext \<in> set plainExtensions \<and> endsWith (toLowerCase url) ext
      \<longrightarrow> isValidImageUrl net (JStr url) tr = (Inr True, tr))
   \<and> (isValidImageUrl net (JStr url) tr = (r, tr')
        \<and> probed net tr tr' url (HeadOk (Some ct)) \<and> startsWith ct ''text/html''
      \<longrightarrow> r = Inr False)"
proof (intro conjI impI)
  assume "ext \<in> set imageExtensions \<and> includesStr (toLowerCase url) ext"
  then have "ext \<in> set imageExtensions" and "includesStr (toLowerCase url) ext" by simp_all
  then show "isValidImageUrl net (JStr url) tr
      = (Inr (\<not> endsWith (toLowerCase url) ''.svg''), tr)"
    by (rule extension_decides)
next
  assume a: "ext \<in> set plainExtensions \<and> endsWith (toLowerCase (pathOf url)) ext
      \<and> \<not> endsWith (toLowerCase url) ''.svg''"
  then have "ext \<in> set imageExtensions" by (auto simp: plainExtensions_def imageExtensions_def)
  moreover from a have "includesStr (toLowerCase url) ext" by (intro pathOf_includes) simp
  ultimately have "isValidImageUrl net (JStr url) tr
      = (Inr (\<not> endsWith (toLowerCase url) ''.svg''), tr)"
    by (rule extension_decides)
  with a show "isValidImageUrl net (JStr url) tr = (Inr True, tr)" by simp
next
  assume a: "ext \<in> set plainExtensions \<and> endsWith (toLowerCase url) ext"
  then have "ext \<in> set imageExtensions" by (auto simp: plainExtensions_def imageExtensions_def)
  moreover from a have "includesStr (toLowerCase url) ext" by (simp add: endsWith_includesStr)
  ultimately have "isValidImageUrl net (JStr url) tr
      = (Inr (\<not> endsWith (toLowerCase url) ''.svg''), tr)"
    by (rule extension_decides)
  moreover from a have "\<not> endsWith (toLowerCase url) ''.svg''"
    by (auto simp: endsWith_suffix dest: plain_not_svg)
  ultimately show "isValidImageUrl net (JStr url) tr = (Inr True, tr)" by simp
next
  assume a: "isValidImageUrl net (JStr url) tr = (r, tr')
        \<and> probed net tr tr' url (HeadOk (Some ct)) \<and> startsWith ct ''text/html''"
  then have "startsWith ct ''text/html''" by simp
  then have html: "classify (HeadOk (Some ct)) = Some False" by (rule classify_html)
  show "r = Inr False"
  proof (cases "url = []")
    case True
    with a show ?thesis by (auto simp: isValidImageUrl_empty probed_same)
  next
    case ne: False
    show ?thesis
    proof (cases "hasImageExtension url")
      case True
      with a ne show ?thesis by (auto simp: isValidImageUrl_extension probed_same)
    next
      case False
      with a ne html show ?thesis
        by (auto simp: isValidImageUrl_probe probed_one probed_two simp del: classify.simps
            split: option.splits if_splits)
    qed
  qed
qed

theorem isValidImageUrl_extension_and_html_witness:
  "isValidImageUrl deadNetwork (JStr ''https://example.com/a.jpg?w=100'') [] = (Inr True, [])
   \<and> isValidImageUrl deadNetwork (JStr ''https://example.com/a.png?ref=logo.svg'') []
       = (Inr False, [])
   \<and> isValidImageUrl deadNetwork (JStr ''https://example.com/Photo.JPG'') [] = (Inr True, [])
   \<and> isValidImageUrl htmlNetwork (JStr ''https://example.com/gallery'') []
       = (Inr False, [HeadReq ''https://example.com/gallery''])
   \<and> probed htmlNetwork [] [HeadReq ''https://example.com/gallery'']
       ''https://example.com/gallery'' (HeadOk (Some ''text/html; charset=utf-8''))"
proof -
  note claim = isValidImageUrl_extension_and_html
  have q: "''.jpg'' \<in> set plainExtensions
      \<and> endsWith (toLowerCase (pathOf ''https://example.com/a.jpg?w=100'')) ''.jpg''
      \<and> \<not> endsWith (toLowerCase ''https://example.com/a.jpg?w=100'') ''.svg''"
    by code_simp
  have s: "''.png'' \<in> set imageExtensions
      \<and> includesStr (toLowerCase ''https://example.com/a.png?ref=logo.svg'') ''.png''"
    by code_simp
  have svg: "endsWith (toLowerCase ''https://example.com/a.png?ref=logo.svg'') ''.svg''"
    by code_simp
  have ext: "''.jpg'' \<in> set plainExtensions
      \<and> endsWith (toLowerCase ''https://example.com/Photo.JPG'') ''.jpg''"
    by code_simp
  have run: "isValidImageUrl htmlNetwork (JStr ''https://example.com/gallery'') []
      = (Inr False, [HeadReq ''https://example.com/gallery''])"
    by code_simp
  have pr: "probed htmlNetwork [] [HeadReq ''https://example.com/gallery'']
      ''https://example.com/gallery'' (HeadOk (Some ''text/html; charset=utf-8''))"
    by code_simp
  from q claim[of "''.jpg''" "''https://example.com/a.jpg?w=100''" deadNetwork "[]"]
  have 1: "isValidImageUrl deadNetwork (JStr ''https://example.com/a.jpg?w=100'') []
      = (Inr True, [])"
    by blast
  from s claim[of "''.png''" "''https://example.com/a.png?ref=logo.svg''" deadNetwork "[]"]
  have "isValidImageUrl deadNetwork (JStr ''https://example.com/a.png?ref=logo.svg'') []
      = (Inr (\<not> endsWith (toLowerCase ''https://example.com/a.png?ref=logo.svg'') ''.svg''), [])"
    by blast
  with svg have 2: "isValidImageUrl deadNetwork (JStr ''https://example.com/a.png?ref=logo.svg'') []
      = (Inr False, [])"
    by simp
  from ext claim[of "''.jpg''" "''https://example.com/Photo.JPG''" deadNetwork "[]"]
  have 3: "isValidImageUrl deadNetwork (JStr ''https://example.com/Photo.JPG'') [] = (Inr True, [])"
    by blast
  from 1 2 3 run pr show ?thesis by simp
qed

text \<open>
  Claim C4. \<^verbatim>\<open>isValidImageUrl\<close> never throws: for every argument it returns a
  boolean. Whenever a header probe that it issued was unreachable or failed, the boolean
  is \<^verbatim>\<open>false\<close>.
\<close>

theorem isValidImageUrl_probe_failure:
  "isValidImageUrl net v tr = (r, tr') \<Longrightarrow>
     (\<exists>b. r = Inr b) \<and> ((\<exists>u. probed net tr tr' u HeadThrows) \<longrightarrow> r = Inr False)"
proof (cases "\<exists>url. v = JStr url \<and> url \<noteq> []")
  case False
  assume "isValidImageUrl net v tr = (r, tr')"
  with False isValidImageUrl_non_string[of v net tr] show ?thesis by (auto simp: probed_same)
next
  case True
  assume run: "isValidImageUrl net v tr = (r, tr')"
  from True obtain url where v: "v = JStr url" and ne: "url \<noteq> []" by blast
  show ?thesis
  proof (cases "hasImageExtension url")
    case True
    with run v ne show ?thesis by (auto simp: isValidImageUrl_extension probed_same)
  next
    case False
    with run v ne show ?thesis
      by (auto simp: isValidImageUrl_probe probed_one probed_two
          split: option.splits if_splits dest: classify_throws)
  qed
qed

theorem isValidImageUrl_probe_failure_witness:
  "isValidImageUrl deadNetwork (JStr ''https://cdn.example.com/photo/17'') []
     = (Inr False, [HeadReq ''https://cdn.example.com/photo/17''])
   \<and> probed deadNetwork [] [HeadReq ''https://cdn.example.com/photo/17'']
       ''https://cdn.example.com/photo/17'' HeadThrows"
proof -
  have run: "isValidImageUrl deadNetwork (JStr ''https://cdn.example.com/photo/17'') []
      = (isValidImageUrl deadNetwork (JStr ''https://cdn.example.com/photo/17'') [])"
    by (rule refl)
  have tr: "snd (isValidImageUrl deadNetwork (JStr ''https://cdn.example.com/photo/17'') [])
      = [HeadReq ''https://cdn.example.com/photo/17'']"
    by code_simp
  have pr: "probed deadNetwork [] [HeadReq ''https://cdn.example.com/photo/17'']
      ''https://cdn.example.com/photo/17'' HeadThrows"
    by code_simp
  from isValidImageUrl_probe_failure
    [of deadNetwork "JStr ''https://cdn.example.com/photo/17''" "[]"
        "fst (isValidImageUrl deadNetwork (JStr ''https://cdn.example.com/photo/17'') [])"
        "[HeadReq ''https://cdn.example.com/photo/17'']"]
    tr pr
  have "fst (isValidImageUrl deadNetwork (JStr ''https://cdn.example.com/photo/17'') [])
      = Inr False"
    by (metis prod.collapse)
  with tr pr show ?thesis by (metis prod.collapse)
qed

text \<open>
  Claim C10. For every argument that is not a non-empty string (\<^verbatim>\<open>null\<close>,
  \<^verbatim>\<open>undefined\<close>, the empty string, a number, a boolean, an object)
  \<^verbatim>\<open>isValidImageUrl\<close> and \<^verbatim>\<open>CityService.validateImageUrl\<close> return \<^verbatim>\<open>false\<close>
  at once: no exception, and the trace of network requests is unchanged.
\<close>

theorem non_string_url_rejected:
  "\<not> (\<exists>s. v = JStr s \<and> s \<noteq> []) \<Longrightarrow>
     isValidImageUrl net v tr = (Inr False, tr) \<and> validateImageUrl net v tr = (Inr False, tr)"
proof (cases "truthy v \<and> typeof v = ''string''")
  case True
  assume "\<not> (\<exists>s. v = JStr s \<and> s \<noteq> [])"
  with True show ?thesis by (cases v) simp_all
next
  case False
  then have "isValidImageUrl net v tr = (Inr False, tr)"
    by (auto simp: isValidImageUrl_def)
  moreover from False have "validateImageUrl net v tr = (Inr False, tr)"
    by (auto simp: validateImageUrl_def)
  ultimately show ?thesis by simp
qed

theorem non_string_url_rejected_witness:
  "isValidImageUrl htmlNetwork Null [] = (Inr False, [])
   \<and> validateImageUrl htmlNetwork Null [] = (Inr False, [])
   \<and> isValidImageUrl htmlNetwork (JStr []) [] = (Inr False, [])
   \<and> validateImageUrl htmlNetwork (JNum 7) [] = (Inr False, [])"
  using non_string_url_rejected [of Null htmlNetwork "[]"]
    non_string_url_rejected [of "JStr []" htmlNetwork "[]"]
    non_string_url_rejected [of "JNum 7" htmlNetwork "[]"]
  by simp

section \<open>Acceptance of the first candidate\<close>

lemma isValidImageUrl_trace:
  assumes "isValidImageUrl net (JStr url) tr = (r, tr')"
  shows "\<exists>k\<le>2. tr' = tr @ replicate k (HeadReq url)"
proof (cases "url = []")
  case True
  with assms have "tr' = tr @ replicate 0 (HeadReq url)" by (simp add: isValidImageUrl_empty)
  then show ?thesis by blast
next
  case ne: False
  show ?thesis
  proof (cases "hasImageExtension url")
    case True
    with assms ne have "tr' = tr @ replicate 0 (HeadReq url)"
      by (simp add: isValidImageUrl_extension)
    then show ?thesis by blast
  next
    case False
    with assms ne have "tr' = tr @ replicate 1 (HeadReq url) \<or> tr' = tr @ replicate 2 (HeadReq url)"
      by (auto simp: isValidImageUrl_probe numeral_2_eq_2 split: option.splits if_splits)
    then show ?thesis by (metis one_le_numeral order_refl)
  qed
qed

lemma isValidImageUrl_returns:
  "\<exists>b tr'. isValidImageUrl net v tr = (Inr b, tr')"
proof (cases "\<exists>url. v = JStr url \<and> url \<noteq> []")
  case False
  then have "isValidImageUrl net v tr = (Inr False, tr)" by (rule isValidImageUrl_non_string)
  then show ?thesis by blast
next
  case True
  then obtain url where v: "v = JStr url" and ne: "url \<noteq> []" by blast
  show ?thesis
  proof (cases "hasImageExtension url")
    case True
    with v ne show ?thesis by (simp add: isValidImageUrl_extension)
  next
    case False
    with v ne show ?thesis
      by (auto simp: isValidImageUrl_probe split: option.splits)
  qed
qed

lemma checkItem_keyword_pass:
  assumes "item_link it = Some url" and "item_image it = Some im"
    and "keywordStagesPass ty name country it url"
  shows "checkItem net ty name country it tr =
     (if badAspect (image_width im) (image_height im) then (Inr Continue, tr)
      else (case isValidImageUrl net (JStr url) tr of
              (Inl e, tr') \<Rightarrow> (Inl e, tr')
            | (Inr isValidImage, tr') \<Rightarrow>
                if \<not> isValidImage then (Inr Continue, tr') else (Inr (Return url), tr')))"
  using assms unfolding checkItem_def keywordStagesPass_def Let_def
  by (auto split: prod.splits sum.splits)

text \<open>
  Claim C1. If the provider answers the first strategy's query with a list whose first
  candidate passes every stage of the filter (the keyword stages, the aspect ratio, and
  \<^verbatim>\<open>isValidImageUrl\<close> returning \<^verbatim>\<open>true\<close>), \<^verbatim>\<open>executeStrategies\<close> returns exactly
  that candidate's \<^verbatim>\<open>link\<close>. The requests issued are the one provider query of the
  first strategy and at most two header probes of that candidate's URL: no query of a
  later strategy, nothing for a later candidate.
\<close>

theorem executeStrategies_short_circuit:
  assumes search: "search_call net tr (strategy_query s) = SearchResp True (Data (Items (it # rest)))"
    and link: "item_link it = Some url" and image: "item_image it = Some im"
    and stages: "keywordStagesPass ty name country it url"
    and aspect: "\<not> badAspect (image_width im) (image_height im)"
    and direct: "isValidImageUrl net (JStr url) (tr @ [SearchReq (strategy_query s)]) = (Inr True, tr')"
  shows "executeStrategies net (s # ss) ty name country tr = (Inr (Some url), tr')
     \<and> (\<exists>k\<le>2. tr' = tr @ SearchReq (strategy_query s) # replicate k (HeadReq url))"
proof -
  let ?tr1 = "tr @ [SearchReq (strategy_query s)]"
  from link image stages aspect direct
  have "checkItem net ty name country it ?tr1 = (Inr (Return url), tr')"
    by (simp add: checkItem_keyword_pass)
  then have "processItems net ty name country (it # rest) ?tr1 = (Inr (Some url), tr')"
    by simp
  with search have "strategyBody net ty name country s tr = (Inr (Some url), tr')"
    by (simp add: strategyBody_def Let_def)
  then have run: "executeStrategies net (s # ss) ty name country tr = (Inr (Some url), tr')"
    by simp
  from isValidImageUrl_trace[OF direct] obtain k where "k \<le> 2"
    and "tr' = ?tr1 @ replicate k (HeadReq url)" by blast
  then have "\<exists>k\<le>2. tr' = tr @ SearchReq (strategy_query s) # replicate k (HeadReq url)"
    by auto
  with run show ?thesis by blast
qed

theorem executeStrategies_short_circuit_witness:
  "executeStrategies (providerNetwork [skylineCandidate, tokyoCandidate])
      [firstStrategy, secondStrategy] ''city'' ''Example City'' ''Canada'' []
     = (Inr (Some ''https://example.com/a.jpg''), [SearchReq ''q1''])"
proof -
  let ?net = "providerNetwork [skylineCandidate, tokyoCandidate]"
  let ?im = "\<lparr>image_contextLink = None, image_width = Some 1600, image_height = Some 900\<rparr>"
  have search: "search_call ?net [] (strategy_query firstStrategy)
      = SearchResp True (Data (Items (skylineCandidate # [tokyoCandidate])))"
    by (simp add: providerNetwork_def)
  have link: "item_link skylineCandidate = Some ''https://example.com/a.jpg''"
    by (simp add: skylineCandidate_def)
  have image: "item_image skylineCandidate = Some ?im"
    by (simp add: skylineCandidate_def)
  have stages: "keywordStagesPass ''city'' ''Example City'' ''Canada'' skylineCandidate
      ''https://example.com/a.jpg''"
    by code_simp
  have aspect: "\<not> badAspect (image_width ?im) (image_height ?im)"
    by code_simp
  have direct: "isValidImageUrl ?net (JStr ''https://example.com/a.jpg'')
      ([] @ [SearchReq (strategy_query firstStrategy)]) = (Inr True, [SearchReq ''q1''])"
    by code_simp
  from executeStrategies_short_circuit[OF search link image stages aspect direct, of "[secondStrategy]"]
  show ?thesis by simp
qed

section \<open>Failing provider calls\<close>

lemma strategyBody_fails:
  assumes "providerFails (search_call net tr (strategy_query s))"
  shows "\<exists>x. strategyBody net ty name country s tr = (x, tr @ [SearchReq (strategy_query s)])
           \<and> (\<forall>u. x \<noteq> Inr (Some u))"
  using assms
  by (auto simp: strategyBody_def Let_def
      split: search_response.splits payload.splits items_field.splits if_splits)

lemma executeStrategies_skip:
  assumes "strategyBody net ty name country s tr = (x, tr1)" and "\<forall>u. x \<noteq> Inr (Some u)"
  shows "executeStrategies net (s # ss) ty name country tr
           = executeStrategies net ss ty name country tr1"
  using assms by (cases x) (auto split: option.splits)

lemma executeStrategies_returns:
  "\<exists>r tr'. executeStrategies net ss ty name country tr = (Inr r, tr')"
proof (induction ss arbitrary: tr)
  case Nil
  show ?case by simp
next
  case (Cons s ss)
  obtain x tr1 where body: "strategyBody net ty name country s tr = (x, tr1)"
    by (cases "strategyBody net ty name country s tr")
  show ?case
  proof (cases "\<exists>u. x = Inr (Some u)")
    case True
    with body show ?thesis by auto
  next
    case False
    with body have "executeStrategies net (s # ss) ty name country tr
        = executeStrategies net ss ty name country tr1"
      by (intro executeStrategies_skip) auto
    with Cons.IH[of tr1] show ?thesis by simp
  qed
qed

lemma executeStrategies_nothing:
  assumes "\<And>s h. s \<in> set ss \<Longrightarrow>
      \<exists>x. strategyBody net ty name country s h = (x, h @ [SearchReq (strategy_query s)])
           \<and> (\<forall>u. x \<noteq> Inr (Some u))"
  shows "executeStrategies net ss ty name country tr
           = (Inr None, tr @ map (\<lambda>s. SearchReq (strategy_query s)) ss)"
  using assms
proof (induction ss arbitrary: tr)
  case Nil
  show ?case by simp
next
  case (Cons s ss)
  from Cons.prems[of s tr] obtain x
    where body: "strategyBody net ty name country s tr = (x, tr @ [SearchReq (strategy_query s)])"
      and no: "\<forall>u. x \<noteq> Inr (Some u)" by auto
  have "executeStrategies net (s # ss) ty name country tr
      = executeStrategies net ss ty name country (tr @ [SearchReq (strategy_query s)])"
    using body no by (rule executeStrategies_skip)
  also have "\<dots> = (Inr None, (tr @ [SearchReq (strategy_query s)])
        @ map (\<lambda>s. SearchReq (strategy_query s)) ss)"
    by (rule Cons.IH) (simp add: Cons.prems)
  finally show ?case by simp
qed

text \<open>
  Claim C2. For every world, every list of strategies and every name,
  \<^verbatim>\<open>executeStrategies\<close> returns a value (a URL or \<^verbatim>\<open>null\<close>) and never throws. A
  provider call that fails (transport error, non-success status, malformed or empty
  body) forfeits that strategy only: the run continues as the run of the remaining
  strategies, and so it does after any exception inside the strategy's \<^verbatim>\<open>try\<close> block
  (a result without \<^verbatim>\<open>link\<close>, for one). When every provider call fails, each strategy is queried once, in order,
  and the result is \<^verbatim>\<open>null\<close>.
\<close>

theorem executeStrategies_total_resilient:
  "(\<exists>r tr'. executeStrategies net ss ty name country tr = (Inr r, tr'))
   \<and> (providerFails (search_call net tr (strategy_query s))
        \<longrightarrow> executeStrategies net (s # ss) ty name country tr
            = executeStrategies net ss ty name country (tr @ [SearchReq (strategy_query s)]))
   \<and> (\<forall>e tr1. strategyBody net ty name country s tr = (Inl e, tr1)
        \<longrightarrow> executeStrategies net (s # ss) ty name country tr
            = executeStrategies net ss ty name country tr1)
   \<and> ((\<forall>h q. providerFails (search_call net h q))
        \<longrightarrow> executeStrategies net ss ty name country tr
            = (Inr None, tr @ map (\<lambda>s. SearchReq (strategy_query s)) ss))"
proof (intro conjI impI allI)
  show "\<exists>r tr'. executeStrategies net ss ty name country tr = (Inr r, tr')"
    by (rule executeStrategies_returns)
next
  assume "providerFails (search_call net tr (strategy_query s))"
  from strategyBody_fails[OF this, of ty name country] obtain x
    where body: "strategyBody net ty name country s tr = (x, tr @ [SearchReq (strategy_query s)])"
      and no: "\<forall>u. x \<noteq> Inr (Some u)" by blast
  show "executeStrategies net (s # ss) ty name country tr
      = executeStrategies net ss ty name country (tr @ [SearchReq (strategy_query s)])"
    using body no by (rule executeStrategies_skip)
next
  fix e tr1
  assume "strategyBody net ty name country s tr = (Inl e, tr1)"
  then show "executeStrategies net (s # ss) ty name country tr
      = executeStrategies net ss ty name country tr1"
    by simp
next
  assume "\<forall>h q. providerFails (search_call net h q)"
  then show "executeStrategies net ss ty name country tr
      = (Inr None, tr @ map (\<lambda>s. SearchReq (strategy_query s)) ss)"
    by (intro executeStrategies_nothing strategyBody_fails) simp
qed

theorem executeStrategies_total_resilient_witness:
  "searchUniversityImage deadNetwork ''Example University'' []
     = (Inr None,
        map (\<lambda>s. SearchReq (strategy_query s)) (universityStrategies ''Example University''))
   \<and> executeStrategies (providerNetwork [linklessCandidate]) [firstStrategy, secondStrategy]
        ''city'' ''Example City'' ''Canada'' []
     = (Inr None, [SearchReq ''q1'', SearchReq ''q2''])"
proof -
  let ?net = "providerNetwork [linklessCandidate]"
  have dead: "\<forall>h q. providerFails (search_call deadNetwork h q)"
    by (simp add: deadNetwork_def)
  have first: "searchUniversityImage deadNetwork ''Example University'' []
     = (Inr None,
        map (\<lambda>s. SearchReq (strategy_query s)) (universityStrategies ''Example University''))"
    using dead executeStrategies_total_resilient
      [of deadNetwork "universityStrategies ''Example University''" "''university''"
          "''Example University''" "[]" "[]" firstStrategy]
    by (simp add: searchUniversityImage_def)
  have throws: "strategyBody ?net ''city'' ''Example City'' ''Canada'' firstStrategy []
      = (Inl TypeError, [SearchReq ''q1''])"
    by code_simp
  have rest: "executeStrategies ?net [secondStrategy] ''city'' ''Example City'' ''Canada''
      [SearchReq ''q1''] = (Inr None, [SearchReq ''q1'', SearchReq ''q2''])"
    by code_simp
  from throws executeStrategies_total_resilient
      [of ?net "[secondStrategy]" "''city''" "''Example City''" "''Canada''" "[]" firstStrategy]
  have "executeStrategies ?net [firstStrategy, secondStrategy] ''city'' ''Example City''
      ''Canada'' [] = executeStrategies ?net [secondStrategy] ''city'' ''Example City''
      ''Canada'' [SearchReq ''q1'']"
    by blast
  with first rest show ?thesis by simp
qed

section \<open>Binary64 arithmetic\<close>

text \<open>Rounding to an integer.\<close>

lemma roundHalfEven_of_int [simp]: "roundHalfEven (of_int n) = n"
  by (simp add: roundHalfEven_def)

lemma roundHalfEven_floor:
  "\<lfloor>x\<rfloor> \<le> roundHalfEven x \<and> roundHalfEven x \<le> \<lfloor>x\<rfloor> + 1"
  by (simp add: roundHalfEven_def Let_def)

lemma roundHalfEven_le:
  assumes "x \<le> of_int n"
  shows "roundHalfEven x \<le> n"
proof (cases "x = of_int n")
  case True
  then show ?thesis by simp
next
  case False
  with assms have "x < of_int n" by simp
  then have "\<lfloor>x\<rfloor> < n" by (simp add: floor_less_iff)
  with roundHalfEven_floor[of x] show ?thesis by linarith
qed

lemma roundHalfEven_ge:
  assumes "of_int n \<le> x"
  shows "n \<le> roundHalfEven x"
proof -
  from assms have "n \<le> \<lfloor>x\<rfloor>" by (simp add: le_floor_iff)
  with roundHalfEven_floor[of x] show ?thesis by linarith
qed

lemma roundHalfEven_below_odd:
  assumes "x \<le> of_int n - 1 / 2" and "odd n"
  shows "roundHalfEven x \<le> n - 1"
proof -
  have "x < of_int n" using assms(1) by linarith
  then have "\<lfloor>x\<rfloor> < n" by (simp add: floor_less_iff)
  then have fl: "\<lfloor>x\<rfloor> \<le> n - 1" by simp
  show ?thesis
  proof (cases "\<lfloor>x\<rfloor> = n - 1")
    case True
    then have d: "x - of_int \<lfloor>x\<rfloor> \<le> 1 / 2" using assms(1) by simp
    from True assms(2) have "even \<lfloor>x\<rfloor>" by simp
    with d True show ?thesis by (auto simp: roundHalfEven_def Let_def)
  next
    case False
    with fl have "\<lfloor>x\<rfloor> + 1 \<le> n - 1" by simp
    then show ?thesis by (auto simp: roundHalfEven_def Let_def)
  qed
qed

lemma roundHalfEven_above:
  assumes "of_int n + 1 / 2 < x"
  shows "n + 1 \<le> roundHalfEven x"
proof -
  have fl: "n \<le> \<lfloor>x\<rfloor>" using assms by (simp add: le_floor_iff)
  show ?thesis
  proof (cases "\<lfloor>x\<rfloor> = n")
    case True
    then have "1 / 2 < x - of_int \<lfloor>x\<rfloor>" using assms by simp
    with True show ?thesis by (auto simp: roundHalfEven_def Let_def)
  next
    case False
    with fl have "n + 1 \<le> \<lfloor>x\<rfloor>" by simp
    then show ?thesis by (auto simp: roundHalfEven_def Let_def)
  qed
qed

text \<open>Powers of two and the exponent of a rational.\<close>

lemma powi_of_int_power: "0 \<le> k \<Longrightarrow> (2::rat) powi k = of_int (2 ^ nat k)"
  by (simp add: power_int_nonneg_exp)

lemma powi2_diff: "(2::rat) powi (a - b) = 2 powi a / 2 powi b"
  by (simp add: power_int_diff)

lemma powi2_add: "(2::rat) powi (a + b) = 2 powi a * 2 powi b"
  by (simp add: power_int_add)

lemma powi2_less_iff: "(2::rat) powi m < 2 powi n \<longleftrightarrow> m < n"
proof
  assume "(2::rat) powi m < 2 powi n"
  show "m < n"
  proof (rule ccontr)
    assume "\<not> m < n"
    then have "n \<le> m" by simp
    then have "(2::rat) powi n \<le> 2 powi m" by (intro power_int_increasing) simp_all
    with \<open>(2::rat) powi m < 2 powi n\<close> show False by simp
  qed
next
  assume "m < n"
  then show "(2::rat) powi m < 2 powi n" by (intro power_int_strict_increasing) simp_all
qed

lemma powi2_le_iff: "(2::rat) powi m \<le> 2 powi n \<longleftrightarrow> m \<le> n"
  using powi2_less_iff[of n m] by (auto simp: not_less[symmetric])

lemma bitlen_rat_bounds:
  assumes "0 < p"
  shows "(2::rat) powi (bitlen p - 1) \<le> of_int p" and "of_int p < (2::rat) powi (bitlen p)"
proof -
  from bitlen_bounds[OF assms] have p1: "2 ^ nat (bitlen p - 1) \<le> p" and p2: "p < 2 ^ nat (bitlen p)"
    by auto
  have bp: "1 \<le> bitlen p"
    using assms bitlen_eq_zero_iff[of p] bitlen_nonneg[of p] by linarith
  have "(2::rat) powi (bitlen p - 1) = of_int (2 ^ nat (bitlen p - 1))"
    using bp by (intro powi_of_int_power) simp
  also have "\<dots> \<le> of_int p" using p1 by (simp only: of_int_le_iff)
  finally show "(2::rat) powi (bitlen p - 1) \<le> of_int p" .
  have "(of_int p :: rat) < of_int (2 ^ nat (bitlen p))" using p2 by (simp only: of_int_less_iff)
  also have "\<dots> = (2::rat) powi (bitlen p)"
    using bp by (intro powi_of_int_power[symmetric]) simp
  finally show "of_int p < (2::rat) powi (bitlen p)" .
qed

lemma ilog2_bounds:
  assumes "0 < a"
  shows "2 powi (ilog2 a) \<le> a \<and> a < 2 powi (ilog2 a + 1)"
proof -
  obtain p d where pd: "quotient_of a = (p, d)" by (cases "quotient_of a")
  then have a: "a = of_int p / of_int d" and d: "0 < d"
    using quotient_of_div[of a p d] quotient_of_denom_pos[of a p d] by auto
  with assms have p: "0 < p" by (simp add: zero_less_divide_iff)
  define k where "k = bitlen p - bitlen d"
  note P = bitlen_rat_bounds[OF p] and D = bitlen_rat_bounds[OF d]
  have dpos: "(0::rat) < of_int d" and ppos: "(0::rat) \<le> of_int p" using d p by simp_all
  have "a < 2 powi (bitlen p) / 2 powi (bitlen d - 1)"
    unfolding a using ppos P(2) _ D(1) by (rule frac_less) simp
  also have "\<dots> = 2 powi (k + 1)"
  proof -
    have "k + 1 = bitlen p - (bitlen d - 1)" by (simp add: k_def)
    then show ?thesis by (simp only: powi2_diff)
  qed
  finally have upper: "a < 2 powi (k + 1)" .
  have "2 powi (bitlen p - 1) / 2 powi (bitlen d) \<le> a"
    unfolding a using ppos P(1) dpos by (rule frac_le) (use D(2) in simp)
  moreover have "2 powi (bitlen p - 1) / 2 powi (bitlen d) = (2::rat) powi (k - 1)"
  proof -
    have "k - 1 = (bitlen p - 1) - bitlen d" by (simp add: k_def)
    then show ?thesis by (simp only: powi2_diff)
  qed
  ultimately have lower: "2 powi (k - 1) \<le> a" by simp
  have il: "ilog2 a = (if 2 powi k \<le> a then k else k - 1)"
    by (simp add: ilog2_def pd k_def Let_def)
  show ?thesis
  proof (cases "2 powi k \<le> a")
    case True
    with il upper show ?thesis by simp
  next
    case False
    with il lower show ?thesis by simp
  qed
qed

lemma ilog2_unique:
  assumes "0 < a" and "2 powi k \<le> a" and "a < 2 powi (k + 1)"
  shows "ilog2 a = k"
proof -
  from ilog2_bounds[OF assms(1)]
  have l: "2 powi (ilog2 a) \<le> a" and u: "a < 2 powi (ilog2 a + 1)" by auto
  from l assms(3) have "(2::rat) powi (ilog2 a) < 2 powi (k + 1)" by simp
  then have "ilog2 a < k + 1" by (simp only: powi2_less_iff)
  moreover from assms(2) u have "(2::rat) powi k < 2 powi (ilog2 a + 1)" by simp
  then have "k < ilog2 a + 1" by (simp only: powi2_less_iff)
  ultimately show ?thesis by simp
qed

text \<open>The Number value of a rational with a known exponent.\<close>

lemma binary64_cases:
  assumes q: "q \<noteq> 0" and lo: "2 powi k \<le> \<bar>q\<bar>" and hi: "\<bar>q\<bar> < 2 powi (k + 1)"
    and k: "- 1022 \<le> k"
  defines "m \<equiv> roundHalfEven (\<bar>q\<bar> / 2 powi (k - 52))"
  shows "binary64 q =
      (if 1024 \<le> k \<or> (k = 1023 \<and> m = 2 ^ 53) then Infinity (q < 0)
       else Finite (if q < 0 then - (of_int m * 2 powi (k - 52)) else of_int m * 2 powi (k - 52)))"
    and "2 ^ 52 \<le> m" and "m \<le> 2 ^ 53"
proof -
  have apos: "0 < \<bar>q\<bar>" using q by simp
  have e: "ilog2 \<bar>q\<bar> = k" using apos lo hi by (rule ilog2_unique)
  have upos: "(0::rat) < 2 powi (k - 52)" by simp
  have "(2::rat) powi (52 + (k - 52)) = 2 powi 52 * 2 powi (k - 52)" by (rule powi2_add)
  then have k52: "(2::rat) powi k = 2 ^ 52 * 2 powi (k - 52)" by simp
  have "(2::rat) powi (53 + (k - 52)) = 2 powi 53 * 2 powi (k - 52)" by (rule powi2_add)
  moreover have "53 + (k - 52) = k + 1" by simp
  ultimately have k53: "(2::rat) powi (k + 1) = 2 ^ 53 * 2 powi (k - 52)" by simp
  have x1: "of_int (2 ^ 52) \<le> \<bar>q\<bar> / 2 powi (k - 52)"
    using lo upos by (simp add: k52 pos_le_divide_eq)
  have x2: "\<bar>q\<bar> / 2 powi (k - 52) \<le> of_int (2 ^ 53)"
    using hi upos by (simp add: k53 pos_divide_le_eq)
  from x1 show m1: "2 ^ 52 \<le> m" unfolding m_def by (rule roundHalfEven_ge)
  from x2 show m2: "m \<le> 2 ^ 53" unfolding m_def by (rule roundHalfEven_le)
  from m1 have m0: "m \<noteq> 0" by simp
  have mx: "max (ilog2 \<bar>q\<bar>) (- 1022) = k" using e k by simp
  show "binary64 q =
      (if 1024 \<le> k \<or> (k = 1023 \<and> m = 2 ^ 53) then Infinity (q < 0)
       else Finite (if q < 0 then - (of_int m * 2 powi (k - 52)) else of_int m * 2 powi (k - 52)))"
    unfolding binary64_def Let_def mx m_def[symmetric] using q m0 by simp
qed

lemma binary64_truthy:
  assumes "1 \<le> \<bar>q\<bar>"
  shows "truthyNumber (binary64 q)"
proof -
  from assms have q: "q \<noteq> 0" and apos: "0 < \<bar>q\<bar>" by auto
  from ilog2_bounds[OF apos]
  have lo: "2 powi (ilog2 \<bar>q\<bar>) \<le> \<bar>q\<bar>" and hi: "\<bar>q\<bar> < 2 powi (ilog2 \<bar>q\<bar> + 1)" by auto
  from assms hi have "(2::rat) powi 0 < 2 powi (ilog2 \<bar>q\<bar> + 1)" by simp
  then have "0 < ilog2 \<bar>q\<bar> + 1" by (simp only: powi2_less_iff)
  then have k: "- 1022 \<le> ilog2 \<bar>q\<bar>" by simp
  from binary64_cases(1)[OF q lo hi k] show ?thesis by simp
qed

lemma binary64_binade:
  assumes q: "q \<noteq> 0" and lo: "2 powi k \<le> \<bar>q\<bar>" and hi: "\<bar>q\<bar> < 2 powi (k + 1)"
    and k: "- 1022 \<le> k" "k < 1023"
  defines "m \<equiv> roundHalfEven (\<bar>q\<bar> / 2 powi (k - 52))"
  shows "binary64 q = Finite (if q < 0 then - (of_int m * 2 powi (k - 52)) else of_int m * 2 powi (k - 52))"
    and "2 ^ 52 \<le> m" and "m \<le> 2 ^ 53"
  unfolding m_def using binary64_cases[OF q lo hi k(1)] k(2) by simp_all

lemma binary64_int_exact:
  assumes "n \<noteq> 0" and "\<bar>n\<bar> < 2 ^ 53"
  shows "binary64 (of_int n) = Finite (of_int n)"
proof -
  define q :: rat where "q = of_int n"
  define k where "k = ilog2 \<bar>q\<bar>"
  have q: "q \<noteq> 0" and a: "\<bar>q\<bar> = of_int \<bar>n\<bar>" using assms by (simp_all add: q_def)
  have a1: "1 \<le> \<bar>q\<bar>" using assms(1) unfolding a by (simp add: of_int_abs [symmetric] del: of_int_abs)
  have a2: "\<bar>q\<bar> < 2 powi 53"
  proof -
    have "(of_int \<bar>n\<bar> :: rat) < of_int (2 ^ 53)" using assms(2) by (simp only: of_int_less_iff)
    then show ?thesis unfolding a by simp
  qed
  have apos: "0 < \<bar>q\<bar>" using q by simp
  from ilog2_bounds[OF apos]
  have lo: "2 powi k \<le> \<bar>q\<bar>" and hi: "\<bar>q\<bar> < 2 powi (k + 1)" by (auto simp: k_def)
  from a1 hi have "(2::rat) powi 0 < 2 powi (k + 1)" by simp
  then have k0: "0 \<le> k" using powi2_less_iff[of 0 "k + 1"] by simp
  from lo a2 have "(2::rat) powi k < 2 powi 53" by simp
  then have k1: "k \<le> 52" using powi2_less_iff[of k 53] by simp
  define j where "j = nat (52 - k)"
  have u: "(2::rat) powi (k - 52) = 1 / 2 ^ j"
  proof -
    have "k - 52 = - int j" using k1 by (simp add: j_def)
    then show ?thesis by (simp add: power_int_minus_divide)
  qed
  have x: "\<bar>q\<bar> / 2 powi (k - 52) = of_int (\<bar>n\<bar> * 2 ^ j)"
    by (simp add: u a)
  have m: "roundHalfEven (\<bar>q\<bar> / 2 powi (k - 52)) = \<bar>n\<bar> * 2 ^ j"
    unfolding x by (rule roundHalfEven_of_int)
  have r: "of_int (\<bar>n\<bar> * 2 ^ j) * (2::rat) powi (k - 52) = of_int \<bar>n\<bar>"
    by (simp add: u)
  from k0 k1 have kk: "- 1022 \<le> k" "k < 1023" by simp_all
  from binary64_binade(1)[OF q lo hi kk]
  have "binary64 q = Finite (if q < 0 then - of_int \<bar>n\<bar> else of_int \<bar>n\<bar>)"
    unfolding m r by simp
  then show ?thesis by (auto simp: q_def)
qed

text \<open>
  The two literals, and the quotient of two integers below \<open>10 ^ 15\<close> compared with
  them: rounding never moves such a quotient across \<^verbatim>\<open>1.2\<close> or \<^verbatim>\<open>2.5\<close>.
\<close>

lemma binary64_1_2: "binary64 (12 / 10) = Finite (5404319552844595 / 2 ^ 52)"
  by code_simp

lemma binary64_2_5: "binary64 (25 / 10) = Finite (5 / 2)"
  by code_simp

lemma ratio_binade:
  fixes a b :: int
  assumes "0 < a" "0 < b" "a < 10 ^ 15" "b < 10 ^ 15"
  defines "q \<equiv> (of_int a / of_int b :: rat)"
  shows "0 < q" and "- 50 \<le> ilog2 q" and "ilog2 q < 50"
proof -
  show qpos: "0 < q" using assms by (simp add: q_def)
  have b1: "(1::rat) \<le> of_int b" using assms(2) by simp
  have "q \<le> of_int a" unfolding q_def using assms(1) b1
    by (simp add: pos_divide_le_eq mult_le_cancel_left1)
  also have "\<dots> < of_int (10 ^ 15)" using assms(3) by (simp only: of_int_less_iff)
  also have "\<dots> < (2::rat) powi 50" by simp
  finally have qhi: "q < 2 powi 50" .
  have "(2::rat) powi (- 50) < 1 / of_int (10 ^ 15)" by simp
  also have "\<dots> < 1 / of_int b"
    using assms(2,4) by (intro divide_strict_left_mono) simp_all
  also have "\<dots> \<le> q" unfolding q_def using assms(1,2)
    by (simp add: divide_le_cancel)
  finally have qlo: "2 powi (- 50) < q" .
  from ilog2_bounds[OF qpos]
  have lo: "2 powi (ilog2 q) \<le> q" and hi: "q < 2 powi (ilog2 q + 1)" by auto
  from lo qhi have "(2::rat) powi (ilog2 q) < 2 powi 50" by simp
  then show "ilog2 q < 50" by (simp only: powi2_less_iff)
  from qlo hi have "(2::rat) powi (- 50) < 2 powi (ilog2 q + 1)" by simp
  then have "- 50 < ilog2 q + 1" by (simp only: powi2_less_iff)
  then show "- 50 \<le> ilog2 q" by simp
qed

lemma ratio_below_1_2:
  fixes a b :: int
  assumes "0 < a" "0 < b" "a < 10 ^ 15" "b < 10 ^ 15"
  defines "q \<equiv> (of_int a / of_int b :: rat)"
  shows "less64 (binary64 q) (binary64 (12 / 10)) \<longleftrightarrow> q < 12 / 10"
proof -
  note rb = ratio_binade[OF assms(1-4), folded q_def]
  define k where "k = ilog2 q"
  define u :: rat where "u = 2 powi (k - 52)"
  define m where "m = roundHalfEven (q / u)"
  have qpos: "0 < q" and absq: "\<bar>q\<bar> = q" using rb(1) by simp_all
  from ilog2_bounds[OF qpos]
  have lo: "2 powi k \<le> q" and hi: "q < 2 powi (k + 1)" by (auto simp: k_def)
  have kk: "- 1022 \<le> k" "k < 1023" using rb(2,3) by (simp_all add: k_def)
  have q0: "q \<noteq> 0" using qpos by simp
  from binary64_binade[of q k] q0 lo hi kk absq
  have val: "binary64 q = Finite (of_int m * u)" and m1: "2 ^ 52 \<le> m" and m2: "m \<le> 2 ^ 53"
    using qpos by (simp_all add: m_def u_def)
  have upos: "0 < u" by (simp add: u_def)
  have "(2::rat) powi (52 + (k - 52)) = 2 powi 52 * 2 powi (k - 52)" by (rule powi2_add)
  then have k52: "(2::rat) powi k = 2 ^ 52 * u" by (simp add: u_def)
  have "(2::rat) powi (53 + (k - 52)) = 2 powi 53 * 2 powi (k - 52)" by (rule powi2_add)
  moreover have "53 + (k - 52) = k + 1" by simp
  ultimately have k53: "(2::rat) powi (k + 1) = 2 ^ 53 * u" by (simp add: u_def)
  have r1: "2 powi k \<le> of_int m * u"
  proof -
    have "(of_int (2 ^ 52) :: rat) \<le> of_int m" using m1 by (simp only: of_int_le_iff)
    then have "of_int (2 ^ 52) * u \<le> of_int m * u" using upos by (simp only: mult_le_cancel_right_pos)
    then show ?thesis by (simp add: k52)
  qed
  have r2: "of_int m * u \<le> 2 powi (k + 1)"
  proof -
    have "(of_int m :: rat) \<le> of_int (2 ^ 53)" using m2 by (simp only: of_int_le_iff)
    then have "of_int m * u \<le> of_int (2 ^ 53) * u" using upos by (simp only: mult_le_cancel_right_pos)
    then show ?thesis by (simp add: k53)
  qed
  have red: "less64 (binary64 q) (binary64 (12 / 10))
      \<longleftrightarrow> of_int m * u < (5404319552844595 / 2 ^ 52 :: rat)"
    by (simp only: val binary64_1_2 less64.simps)
  consider "k < 0" | "k = 0" | "0 < k" by linarith
  then have "of_int m * u < (5404319552844595 / 2 ^ 52 :: rat) \<longleftrightarrow> q < 12 / 10"
  proof cases
    case 1
    then have "k + 1 \<le> 0" by simp
    then have "(2::rat) powi (k + 1) \<le> 2 powi 0" by (simp only: powi2_le_iff)
    then have le1: "(2::rat) powi (k + 1) \<le> 1" by simp
    with hi have "q < 12 / 10" by simp
    moreover from r2 le1 have "of_int m * u < (5404319552844595 / 2 ^ 52 :: rat)" by simp
    ultimately show ?thesis by simp
  next
    case 3
    then have "1 \<le> k" by simp
    then have "(2::rat) powi 1 \<le> 2 powi k" by (simp only: powi2_le_iff)
    then have ge2: "(2::rat) \<le> 2 powi k" by simp
    with lo have "\<not> q < 12 / 10" by simp
    moreover from r1 ge2 have "\<not> of_int m * u < (5404319552844595 / 2 ^ 52 :: rat)" by simp
    ultimately show ?thesis by simp
  next
    case 2
    then have u: "u = 1 / 2 ^ 52" by (simp add: u_def power_int_minus_divide)
    have x: "q / u = q * 2 ^ 52" by (simp add: u)
    have cmp: "of_int m * u < (5404319552844595 / 2 ^ 52 :: rat) \<longleftrightarrow> m < 5404319552844595"
      by (simp add: u divide_less_cancel)
    show ?thesis
    proof (cases "q < 12 / 10")
      case True
      then have "(of_int (5 * a) :: rat) < of_int (6 * b)"
        using assms(2) by (simp add: q_def pos_divide_less_eq)
      then have "5 * a < 6 * b" by (simp only: of_int_less_iff)
      then have "5 * a + 1 \<le> 6 * b" by linarith
      moreover have "7 * b \<le> 2 ^ 53" using assms(4) by simp
      ultimately have I: "2 ^ 53 * a \<le> 10808639105689189 * b" by simp
      have "(of_int (2 ^ 53 * a) :: rat) \<le> of_int (10808639105689189 * b)"
        using I by (simp only: of_int_le_iff)
      then have "q * 2 ^ 52 \<le> of_int 5404319552844595 - 1 / 2"
        using assms(2) by (simp add: q_def pos_divide_le_eq field_simps)
      then have "m \<le> 5404319552844595 - 1"
        unfolding m_def x by (rule roundHalfEven_below_odd) simp
      then have "m < 5404319552844595" by simp
      then have "of_int m * u < (5404319552844595 / 2 ^ 52 :: rat)" by (rule iffD2[OF cmp])
      with True show ?thesis by blast
    next
      case False
      then have "of_int 5404319552844595 \<le> q * 2 ^ 52" by simp
      then have "5404319552844595 \<le> m" unfolding m_def x by (rule roundHalfEven_ge)
      then have "\<not> m < 5404319552844595" by simp
      then have "\<not> of_int m * u < (5404319552844595 / 2 ^ 52 :: rat)" using cmp by blast
      with False show ?thesis by blast
    qed
  qed
  with red show ?thesis by simp
qed

lemma ratio_above_2_5:
  fixes a b :: int
  assumes "0 < a" "0 < b" "a < 10 ^ 15" "b < 10 ^ 15"
  defines "q \<equiv> (of_int a / of_int b :: rat)"
  shows "less64 (binary64 (25 / 10)) (binary64 q) \<longleftrightarrow> 25 / 10 < q"
proof -
  note rb = ratio_binade[OF assms(1-4), folded q_def]
  define k where "k = ilog2 q"
  define u :: rat where "u = 2 powi (k - 52)"
  define m where "m = roundHalfEven (q / u)"
  have qpos: "0 < q" and absq: "\<bar>q\<bar> = q" using rb(1) by simp_all
  from ilog2_bounds[OF qpos]
  have lo: "2 powi k \<le> q" and hi: "q < 2 powi (k + 1)" by (auto simp: k_def)
  have kk: "- 1022 \<le> k" "k < 1023" using rb(2,3) by (simp_all add: k_def)
  have q0: "q \<noteq> 0" using qpos by simp
  from binary64_binade[of q k] q0 lo hi kk absq
  have val: "binary64 q = Finite (of_int m * u)" and m1: "2 ^ 52 \<le> m" and m2: "m \<le> 2 ^ 53"
    using qpos by (simp_all add: m_def u_def)
  have upos: "0 < u" by (simp add: u_def)
  have "(2::rat) powi (52 + (k - 52)) = 2 powi 52 * 2 powi (k - 52)" by (rule powi2_add)
  then have k52: "(2::rat) powi k = 2 ^ 52 * u" by (simp add: u_def)
  have "(2::rat) powi (53 + (k - 52)) = 2 powi 53 * 2 powi (k - 52)" by (rule powi2_add)
  moreover have "53 + (k - 52) = k + 1" by simp
  ultimately have k53: "(2::rat) powi (k + 1) = 2 ^ 53 * u" by (simp add: u_def)
  have r1: "2 powi k \<le> of_int m * u"
  proof -
    have "(of_int (2 ^ 52) :: rat) \<le> of_int m" using m1 by (simp only: of_int_le_iff)
    then have "of_int (2 ^ 52) * u \<le> of_int m * u" using upos by (simp only: mult_le_cancel_right_pos)
    then show ?thesis by (simp add: k52)
  qed
  have r2: "of_int m * u \<le> 2 powi (k + 1)"
  proof -
    have "(of_int m :: rat) \<le> of_int (2 ^ 53)" using m2 by (simp only: of_int_le_iff)
    then have "of_int m * u \<le> of_int (2 ^ 53) * u" using upos by (simp only: mult_le_cancel_right_pos)
    then show ?thesis by (simp add: k53)
  qed
  have red: "less64 (binary64 (25 / 10)) (binary64 q) \<longleftrightarrow> (5 / 2 :: rat) < of_int m * u"
    by (simp only: val binary64_2_5 less64.simps)
  consider "k < 1" | "k = 1" | "1 < k" by linarith
  then have "(5 / 2 :: rat) < of_int m * u \<longleftrightarrow> 25 / 10 < q"
  proof cases
    case 1
    then have "k + 1 \<le> 1" by simp
    then have "(2::rat) powi (k + 1) \<le> 2 powi 1" by (simp only: powi2_le_iff)
    then have le2: "(2::rat) powi (k + 1) \<le> 2" by simp
    with hi have "\<not> 25 / 10 < q" by simp
    moreover from r2 le2 have "\<not> (5 / 2 :: rat) < of_int m * u" by simp
    ultimately show ?thesis by simp
  next
    case 3
    then have "2 \<le> k" by simp
    then have "(2::rat) powi 2 \<le> 2 powi k" by (simp only: powi2_le_iff)
    then have ge4: "(4::rat) \<le> 2 powi k" by simp
    with lo have "25 / 10 < q" by simp
    moreover from r1 ge4 have "(5 / 2 :: rat) < of_int m * u" by simp
    ultimately show ?thesis by simp
  next
    case 2
    then have u: "u = 1 / 2 ^ 51" by (simp add: u_def power_int_minus_divide)
    have x: "q / u = q * 2 ^ 51" by (simp add: u)
    have cmp: "(5 / 2 :: rat) < of_int m * u \<longleftrightarrow> 5629499534213120 < m"
      by (simp add: u less_divide_eq)
    show ?thesis
    proof (cases "25 / 10 < q")
      case True
      then have "(of_int (5 * b) :: rat) < of_int (2 * a)"
        using assms(2) by (simp add: q_def pos_less_divide_eq)
      then have "5 * b < 2 * a" by (simp only: of_int_less_iff)
      then have "5 * b + 1 \<le> 2 * a" by linarith
      moreover have "b < 2 ^ 51" using assms(4) by simp
      ultimately have I: "11258999068426241 * b < 2 ^ 52 * a" by simp
      have "(of_int (11258999068426241 * b) :: rat) < of_int (2 ^ 52 * a)"
        using I by (simp only: of_int_less_iff)
      then have "of_int 5629499534213120 + 1 / 2 < q * 2 ^ 51"
        using assms(2) by (simp add: q_def pos_less_divide_eq field_simps)
      then have "5629499534213120 + 1 \<le> m"
        unfolding m_def x by (rule roundHalfEven_above)
      then have "5629499534213120 < m" by simp
      then have "(5 / 2 :: rat) < of_int m * u" by (rule iffD2[OF cmp])
      with True show ?thesis by blast
    next
      case False
      then have "q * 2 ^ 51 \<le> of_int 5629499534213120" by simp
      then have "m \<le> 5629499534213120" unfolding m_def x by (rule roundHalfEven_le)
      then have "\<not> 5629499534213120 < m" by simp
      then have "\<not> (5 / 2 :: rat) < of_int m * u" using cmp by blast
      with False show ?thesis by blast
    qed
  qed
  with red show ?thesis by simp
qed

lemma ratio_negative:
  fixes a b :: int
  assumes "0 < a" "0 < b" "a < 10 ^ 15" "b < 10 ^ 15"
  defines "q \<equiv> (of_int a / of_int b :: rat)"
  shows "less64 (binary64 (- q)) (binary64 (12 / 10))"
    and "\<not> less64 (binary64 (25 / 10)) (binary64 (- q))"
proof -
  note rb = ratio_binade[OF assms(1-4), folded q_def]
  define k where "k = ilog2 q"
  define r :: rat where "r = of_int (roundHalfEven (q / 2 powi (k - 52))) * 2 powi (k - 52)"
  have qpos: "0 < q" and absq: "\<bar>- q\<bar> = q" using rb(1) by simp_all
  from ilog2_bounds[OF qpos]
  have lo: "2 powi k \<le> q" and hi: "q < 2 powi (k + 1)" by (auto simp: k_def)
  have kk: "- 1022 \<le> k" "k < 1023" using rb(2,3) by (simp_all add: k_def)
  have q0: "- q \<noteq> 0" using qpos by simp
  from binary64_binade[of "- q" k] q0 lo hi kk absq
  have val: "binary64 (- q) = Finite (- r)" and m1: "2 ^ 52 \<le> roundHalfEven (q / 2 powi (k - 52))"
    using qpos by (simp_all add: r_def)
  have "0 \<le> r" using m1 by (simp add: r_def)
  then have c: "- r < (5404319552844595 / 2 ^ 52 :: rat)" "\<not> (5 / 2 :: rat) < - r" by simp_all
  have "less64 (binary64 (- q)) (binary64 (12 / 10)) \<longleftrightarrow> - r < (5404319552844595 / 2 ^ 52 :: rat)"
    by (simp only: val binary64_1_2 less64.simps)
  with c(1) show "less64 (binary64 (- q)) (binary64 (12 / 10))" by blast
  have "less64 (binary64 (25 / 10)) (binary64 (- q)) \<longleftrightarrow> (5 / 2 :: rat) < - r"
    by (simp only: val binary64_2_5 less64.simps)
  with c(2) show "\<not> less64 (binary64 (25 / 10)) (binary64 (- q))" by blast
qed

text \<open>The aspect-ratio test.\<close>

lemma truthyNumber_numberOfInt: "truthyNumber (numberOfInt n) \<longleftrightarrow> n \<noteq> 0"
proof (cases "n = 0")
  case True
  then show ?thesis by (simp add: numberOfInt_def binary64_def)
next
  case False
  then have "(1::rat) \<le> \<bar>of_int n\<bar>" by (simp add: of_int_abs [symmetric] del: of_int_abs)
  then have "truthyNumber (binary64 (of_int n))" by (rule binary64_truthy)
  with False show ?thesis by (simp add: numberOfInt_def)
qed

lemma numberOfInt_exact:
  assumes "n \<noteq> 0" and "\<bar>n\<bar> < 10 ^ 15"
  shows "numberOfInt n = Finite (of_int n)"
proof -
  from assms(2) have "\<bar>n\<bar> < 2 ^ 53" by simp
  with assms(1) show ?thesis unfolding numberOfInt_def by (rule binary64_int_exact)
qed

lemma aspect_band:
  assumes "w \<noteq> 0" and "h \<noteq> 0" and "\<bar>w\<bar> < 10 ^ 15" and "\<bar>h\<bar> < 10 ^ 15"
  shows "less64 (divide64 (numberOfInt w) (numberOfInt h)) (binary64 (12 / 10))
           \<or> less64 (binary64 (25 / 10)) (divide64 (numberOfInt w) (numberOfInt h))
         \<longleftrightarrow> of_int w / of_int h < (12 / 10 :: rat) \<or> (25 / 10 :: rat) < of_int w / of_int h"
proof -
  define a where "a = \<bar>w\<bar>"
  define b where "b = \<bar>h\<bar>"
  define q :: rat where "q = of_int a / of_int b"
  have ab: "0 < a" "0 < b" "a < 10 ^ 15" "b < 10 ^ 15" using assms by (simp_all add: a_def b_def)
  have qpos: "0 < q" using ab by (simp add: q_def)
  have dv: "divide64 (numberOfInt w) (numberOfInt h) = binary64 (of_int w / of_int h)"
    by (simp add: numberOfInt_exact[OF assms(1,3)] numberOfInt_exact[OF assms(2,4)])
  define x :: rat where "x = of_int w / of_int h"
  have absq: "q = \<bar>x\<bar>" by (simp add: x_def q_def a_def b_def)
  have nz: "x \<noteq> 0" using assms(1,2) by (simp add: x_def)
  have dv': "divide64 (numberOfInt w) (numberOfInt h) = binary64 x" by (simp only: dv x_def)
  have "less64 (binary64 x) (binary64 (12 / 10)) \<or> less64 (binary64 (25 / 10)) (binary64 x)
      \<longleftrightarrow> x < 12 / 10 \<or> 25 / 10 < x"
  proof (cases "0 < x")
    case True
    with absq have eq: "x = q" by simp
    show ?thesis
      unfolding eq q_def
      using ratio_below_1_2[OF ab] ratio_above_2_5[OF ab] by simp
  next
    case False
    with nz have "x < 0" by simp
    with absq have eq: "x = - q" by simp
    have "- q < 12 / 10" using qpos by simp
    with ratio_negative(1)[OF ab] show ?thesis
      unfolding eq q_def by blast
  qed
  then show ?thesis by (simp only: dv' x_def)
qed

lemma badAspect_known:
  "badAspect (Some w) (Some h) \<longleftrightarrow>
     w \<noteq> 0 \<and> h \<noteq> 0
     \<and> (less64 (divide64 (numberOfInt w) (numberOfInt h)) (binary64 (12 / 10))
        \<or> less64 (binary64 (25 / 10)) (divide64 (numberOfInt w) (numberOfInt h)))"
  by (simp add: badAspect_def truthyNumber_numberOfInt Let_def)

lemma badAspect_unknown: "\<not> badAspect None height" "\<not> badAspect width None"
  by (simp_all add: badAspect_def split: option.splits)

text \<open>
  Beyond \<open>10 ^ 15\<close> rounding shows: this quotient is below \<open>6 / 5\<close> and is the
  Number \<^verbatim>\<open>1.2\<close>. An overflowing dimension is \<^verbatim>\<open>Infinity\<close>.
\<close>

lemma binary64_example: "\<not> badAspect (Some 2400000000000001) (Some 2000000000000001)"
  by code_simp

lemma binary64_6_5: "binary64 (6 / 5) = Finite (5404319552844595 / 2 ^ 52)"
  using binary64_1_2 by simp

lemma binary64_5_2: "binary64 (5 / 2) = Finite (5 / 2)"
  using binary64_2_5 by simp

lemma numberOfInt_huge: "numberOfInt hugeDimension = Infinity False"
proof -
  have lo: "(2::rat) powi 1024 \<le> \<bar>of_int hugeDimension\<bar>" by (simp add: hugeDimension_def)
  have hi: "\<bar>of_int hugeDimension :: rat\<bar> < 2 powi (1024 + 1)" by (simp add: hugeDimension_def)
  have nz: "(of_int hugeDimension :: rat) \<noteq> 0" by (simp add: hugeDimension_def)
  have pos: "\<not> hugeDimension < 0" by (simp add: hugeDimension_def)
  from binary64_cases(1)[OF nz lo hi] pos show ?thesis
    by (simp add: numberOfInt_def)
qed

lemma huge_square_passes: "\<not> badAspect (Some hugeDimension) (Some hugeDimension)"
  by (simp add: badAspect_def numberOfInt_huge binary64_5_2 binary64_6_5)

lemma huge_width_rejected: "badAspect (Some hugeDimension) (Some 900)"
proof -
  have "numberOfInt 900 = Finite 900" using numberOfInt_exact[of 900] by simp
  then show ?thesis by (simp add: badAspect_def numberOfInt_huge binary64_5_2 binary64_6_5)
qed

section \<open>The location stage and the geometry stage\<close>

lemma locationMismatch_wrong_country:
  assumes "name \<noteq> []" and "country \<noteq> []"
    and "some wrongCountries (\<lambda>wc. includesStr allText wc)"
    and "\<not> includesStr allText (toLowerCase country)"
  shows "locationMismatch ''city'' name country allText"
  using assms by (simp add: locationMismatch_def Let_def)

lemma checkItem_location_mismatch:
  assumes "item_link it = Some url" and "locationMismatch ty name country (allTextOf it)"
  shows "checkItem net ty name country it tr = (Inr Continue, tr)"
  using assms by (simp add: checkItem_def Let_def)

text \<open>
  Claim C6, as stated, fails. For the entity Springfield, USA, the text of this
  candidate has the token \<^verbatim>\<open>tokyo\<close> and no token \<^verbatim>\<open>usa\<close>, and the candidate is
  accepted: the letters \<^verbatim>\<open>usa\<close> occur inside \<^verbatim>\<open>thousand\<close>.
\<close>

theorem substring_country_accepted:
  "''tokyo'' \<in> set (tokens (allTextOf thousandCandidate))
   \<and> ''usa'' \<notin> set (tokens (allTextOf thousandCandidate))
   \<and> checkItem deadNetwork ''city'' ''Springfield'' ''USA'' thousandCandidate []
       = (Inr (Return ''https://example.com/tower.jpg''), [])"
  by code_simp

text \<open>
  Claim C6, amended. Both tests are substring tests on the combined text (image URL,
  source page URL, title) in lower case. For a city entity (non-empty name) with a known
  country, a candidate with a \<^verbatim>\<open>link\<close> whose text contains one of the seven strings
  \<^verbatim>\<open>japan\<close>, \<^verbatim>\<open>tokyo\<close>, \<^verbatim>\<open>china\<close>, \<^verbatim>\<open>beijing\<close>, \<^verbatim>\<open>shanghai\<close>, \<^verbatim>\<open>korea\<close>,
  \<^verbatim>\<open>seoul\<close> anywhere, and nowhere the country name in lower case, is rejected: the
  loop body executes \<^verbatim>\<open>continue\<close> without any network request, and the loop goes on
  with the remaining candidates.
\<close>

theorem wrong_country_guard:
  assumes "name \<noteq> []" and "country \<noteq> []" and "item_link it = Some url"
    and "some wrongCountries (\<lambda>wc. includesStr (allTextOf it) wc)"
    and "\<not> includesStr (allTextOf it) (toLowerCase country)"
  shows "checkItem net ''city'' name country it tr = (Inr Continue, tr)
     \<and> processItems net ''city'' name country (it # rest) tr
         = processItems net ''city'' name country rest tr"
proof -
  from assms have "locationMismatch ''city'' name country (allTextOf it)"
    by (intro locationMismatch_wrong_country)
  with assms(3) have "checkItem net ''city'' name country it tr = (Inr Continue, tr)"
    by (rule checkItem_location_mismatch)
  then show ?thesis by simp
qed

theorem wrong_country_guard_witness:
  "checkItem (providerNetwork [tokyoCandidate]) ''city'' ''Springfield'' ''USA'' tokyoCandidate []
     = (Inr Continue, [])
   \<and> processItems (providerNetwork [tokyoCandidate]) ''city'' ''Springfield'' ''USA''
        [tokyoCandidate] [] = (Inr None, [])"
proof -
  have n: "''Springfield'' \<noteq> []" and c: "''USA'' \<noteq> []" by simp_all
  have link: "item_link tokyoCandidate = Some ''https://example.com/tower.jpg''"
    by (simp add: tokyoCandidate_def)
  have wrong: "some wrongCountries (\<lambda>wc. includesStr (allTextOf tokyoCandidate) wc)"
    by code_simp
  have nocountry: "\<not> includesStr (allTextOf tokyoCandidate) (toLowerCase ''USA'')"
    by code_simp
  from wrong_country_guard[OF n c link wrong nocountry, of "providerNetwork [tokyoCandidate]" "[]" "[]"]
  show ?thesis by simp
qed

text \<open>
  Claim C7, as stated, fails. A candidate whose width and height are both known, width 0
  and height 900, has the ratio 0, outside of the band, and is accepted.
\<close>

theorem zero_width_passes_geometry:
  "image_width (the (item_image zeroWidthCandidate)) = Some 0
   \<and> image_height (the (item_image zeroWidthCandidate)) = Some 900
   \<and> (of_int 0 / of_int 900 :: rat) < 12 / 10
   \<and> checkItem deadNetwork ''city'' ''Example City'' ''Canada'' zeroWidthCandidate []
       = (Inr (Return ''https://example.com/a.jpg''), [])"
  by code_simp

text \<open>
  Claim C7, amended. For every candidate that reaches the geometry stage (its
  \<^verbatim>\<open>link\<close> and \<^verbatim>\<open>image\<close> are present and the keyword stages pass), the stage
  rejects it exactly when width and height are both known, both different from zero, and
  the binary64 quotient width / height is below \<^verbatim>\<open>1.2\<close> or above \<^verbatim>\<open>2.5\<close>; in every
  other case the candidate passes to \<^verbatim>\<open>isValidImageUrl\<close>, which alone decides. When
  both dimensions are below \<open>10 ^ 15\<close> in absolute value, the binary64 test is the test
  of the exact ratio: below 6/5 or above 5/2.
\<close>

theorem geometry_gate:
  assumes "item_link it = Some url" and "item_image it = Some im"
    and "keywordStagesPass ty name country it url"
  shows "checkItem net ty name country it tr =
     (if \<exists>w h. image_width im = Some w \<and> image_height im = Some h \<and> w \<noteq> 0 \<and> h \<noteq> 0
            \<and> (less64 (divide64 (numberOfInt w) (numberOfInt h)) (binary64 (12 / 10))
               \<or> less64 (binary64 (25 / 10)) (divide64 (numberOfInt w) (numberOfInt h)))
      then (Inr Continue, tr)
      else (case isValidImageUrl net (JStr url) tr of
              (Inl e, tr') \<Rightarrow> (Inl e, tr')
            | (Inr isValidImage, tr') \<Rightarrow>
                if isValidImage then (Inr (Return url), tr') else (Inr Continue, tr')))
     \<and> (\<forall>w h. w \<noteq> 0 \<and> h \<noteq> 0 \<and> \<bar>w\<bar> < 10 ^ 15 \<and> \<bar>h\<bar> < 10 ^ 15 \<longrightarrow>
           (less64 (divide64 (numberOfInt w) (numberOfInt h)) (binary64 (12 / 10))
              \<or> less64 (binary64 (25 / 10)) (divide64 (numberOfInt w) (numberOfInt h)))
           = (of_int w / of_int h < (12 / 10 :: rat) \<or> (25 / 10 :: rat) < of_int w / of_int h))"
proof -
  have "badAspect (image_width im) (image_height im) \<longleftrightarrow>
      (\<exists>w h. image_width im = Some w \<and> image_height im = Some h \<and> w \<noteq> 0 \<and> h \<noteq> 0
            \<and> (less64 (divide64 (numberOfInt w) (numberOfInt h)) (binary64 (12 / 10))
               \<or> less64 (binary64 (25 / 10)) (divide64 (numberOfInt w) (numberOfInt h))))"
  proof (cases "image_width im")
    case None
    then show ?thesis by (simp add: badAspect_unknown)
  next
    case w: (Some w)
    show ?thesis
    proof (cases "image_height im")
      case None
      then show ?thesis by (simp add: badAspect_unknown)
    next
      case (Some h)
      with w show ?thesis by (simp only: badAspect_known) simp
    qed
  qed
  with checkItem_keyword_pass[OF assms, of net tr]
  have first: "checkItem net ty name country it tr =
     (if \<exists>w h. image_width im = Some w \<and> image_height im = Some h \<and> w \<noteq> 0 \<and> h \<noteq> 0
            \<and> (less64 (divide64 (numberOfInt w) (numberOfInt h)) (binary64 (12 / 10))
               \<or> less64 (binary64 (25 / 10)) (divide64 (numberOfInt w) (numberOfInt h)))
      then (Inr Continue, tr)
      else (case isValidImageUrl net (JStr url) tr of
              (Inl e, tr') \<Rightarrow> (Inl e, tr')
            | (Inr isValidImage, tr') \<Rightarrow>
                if isValidImage then (Inr (Return url), tr') else (Inr Continue, tr')))"
    by (auto split: prod.splits sum.splits)
  have second: "\<forall>w h. w \<noteq> 0 \<and> h \<noteq> 0 \<and> \<bar>w\<bar> < 10 ^ 15 \<and> \<bar>h\<bar> < 10 ^ 15 \<longrightarrow>
           (less64 (divide64 (numberOfInt w) (numberOfInt h)) (binary64 (12 / 10))
              \<or> less64 (binary64 (25 / 10)) (divide64 (numberOfInt w) (numberOfInt h)))
           = (of_int w / of_int h < (12 / 10 :: rat) \<or> (25 / 10 :: rat) < of_int w / of_int h)"
    using aspect_band by blast
  from first second show ?thesis by (rule conjI)
qed

theorem geometry_gate_witness:
  "checkItem deadNetwork ''university'' ''Example University'' [] portraitCandidate []
     = (Inr Continue, [])"
proof -
  let ?im = "\<lparr>image_contextLink = Some ''https://example.edu/about'',
               image_width = Some 800, image_height = Some 1000\<rparr>"
  have link: "item_link portraitCandidate = Some ''https://example.edu/main-hall.jpg''"
    by (simp add: portraitCandidate_def)
  have image: "item_image portraitCandidate = Some ?im"
    by (simp add: portraitCandidate_def)
  have stages: "keywordStagesPass ''university'' ''Example University'' [] portraitCandidate
      ''https://example.edu/main-hall.jpg''"
    by code_simp
  note gate = geometry_gate[OF link image stages, of deadNetwork "[]"]
  have small: "(800::int) \<noteq> 0 \<and> (1000::int) \<noteq> 0 \<and> \<bar>800::int\<bar> < 10 ^ 15 \<and> \<bar>1000::int\<bar> < 10 ^ 15"
    by simp
  have ratio: "of_int 800 / of_int 1000 < (12 / 10 :: rat)" by simp
  from gate small ratio
  have "less64 (divide64 (numberOfInt 800) (numberOfInt 1000)) (binary64 (12 / 10))
      \<or> less64 (binary64 (25 / 10)) (divide64 (numberOfInt 800) (numberOfInt 1000))"
    by blast
  then have "\<exists>w h. image_width ?im = Some w \<and> image_height ?im = Some h \<and> w \<noteq> 0 \<and> h \<noteq> 0
            \<and> (less64 (divide64 (numberOfInt w) (numberOfInt h)) (binary64 (12 / 10))
               \<or> less64 (binary64 (25 / 10)) (divide64 (numberOfInt w) (numberOfInt h)))"
    by simp
  with gate show ?thesis by (simp only: if_True)
qed

section \<open>Names without a significant word\<close>

lemma locationMismatch_short_name:
  assumes "name \<noteq> []" and "\<forall>w\<in>set (split_space name). length w \<le> 3"
  shows "locationMismatch ''university'' name country allText"
proof -
  from assms(2) have "filter (\<lambda>w. length w > 3) (split_space name) = []"
    by (auto simp: filter_empty_conv)
  with assms(1) show ?thesis by (simp add: locationMismatch_def some_def)
qed

lemma checkItem_never_accepts:
  assumes "\<And>allText. locationMismatch ty name country allText"
  shows "checkItem net ty name country it tr = (Inr Continue, tr)
     \<or> checkItem net ty name country it tr = (Inl TypeError, tr)"
  using assms by (cases "item_link it") (simp_all add: checkItem_def Let_def)

lemma processItems_never_accepts:
  assumes "\<And>allText. locationMismatch ty name country allText"
  shows "processItems net ty name country its tr = (Inr None, tr)
     \<or> processItems net ty name country its tr = (Inl TypeError, tr)"
proof (induction its)
  case Nil
  show ?case by simp
next
  case (Cons it its)
  from checkItem_never_accepts[OF assms, of net it tr] Cons.IH show ?case by auto
qed

lemma strategyBody_never_accepts:
  assumes "\<And>allText. locationMismatch ty name country allText"
  shows "\<exists>x. strategyBody net ty name country s h = (x, h @ [SearchReq (strategy_query s)])
           \<and> (\<forall>u. x \<noteq> Inr (Some u))"
proof (cases "providerFails (search_call net h (strategy_query s))")
  case True
  then show ?thesis by (rule strategyBody_fails)
next
  case False
  then obtain its where "search_call net h (strategy_query s) = SearchResp True (Data (Items its))"
    and "its \<noteq> []"
    by (auto split: search_response.splits payload.splits items_field.splits if_splits
        elim!: providerFails.elims)
  with processItems_never_accepts[OF assms, of net its "h @ [SearchReq (strategy_query s)]"]
  show ?thesis by (auto simp: strategyBody_def Let_def)
qed

text \<open>
  Claim C9. For every non-empty university name in which no piece between spaces is
  longer than three characters, the location stage rejects every candidate, and
  \<^verbatim>\<open>searchUniversityImage\<close> returns \<^verbatim>\<open>null\<close> whatever the provider answers, after
  querying each of its five strategies once and probing nothing. (A name is non-empty:
  for the empty string the stage is skipped.)
\<close>

theorem short_university_name_never_found:
  assumes "name \<noteq> []" and "\<forall>w\<in>set (split_space name). length w \<le> 3"
  shows "locationMismatch ''university'' name country allText
     \<and> searchUniversityImage net name tr
         = (Inr None, tr @ map (\<lambda>s. SearchReq (strategy_query s)) (universityStrategies name))"
proof -
  have mismatch: "\<And>c t. locationMismatch ''university'' name c t"
    using assms by (rule locationMismatch_short_name)
  have "executeStrategies net (universityStrategies name) ''university'' name [] tr
      = (Inr None, tr @ map (\<lambda>s. SearchReq (strategy_query s)) (universityStrategies name))"
    by (rule executeStrategies_nothing) (rule strategyBody_never_accepts, rule mismatch)
  with mismatch show ?thesis by (simp add: searchUniversityImage_def)
qed

theorem short_university_name_never_found_witness:
  "searchUniversityImage (providerNetwork [domeCandidate]) ''MIT'' []
     = (Inr None, map (\<lambda>s. SearchReq (strategy_query s)) (universityStrategies ''MIT''))"
proof -
  have ne: "''MIT'' \<noteq> []" by simp
  have short: "\<forall>w\<in>set (split_space ''MIT''). length w \<le> 3" by simp
  from short_university_name_never_found[OF ne short, of "[]" "[]" "providerNetwork [domeCandidate]" "[]"]
  show ?thesis by simp
qed

section \<open>The entity name is not checked\<close>

lemma checkItem_trace:
  assumes "checkItem net ty name country it tr = (x, tr')"
  shows "\<exists>rest. tr' = tr @ rest"
proof (cases "snd (checkItem net ty name country it tr) = tr")
  case True
  with assms show ?thesis by simp
next
  case False
  then obtain url r where "isValidImageUrl net (JStr url) tr = (r, tr')"
    using assms
    by (auto simp: checkItem_def Let_def split: option.splits prod.splits sum.splits if_splits)
  from isValidImageUrl_trace[OF this] show ?thesis by blast
qed

lemma processItems_trace:
  "processItems net ty name country its tr = (x, tr') \<Longrightarrow> \<exists>rest. tr' = tr @ rest"
proof (induction its arbitrary: tr)
  case Nil
  then show ?case by simp
next
  case (Cons it its)
  obtain y tr1 where step: "checkItem net ty name country it tr = (y, tr1)"
    by (cases "checkItem net ty name country it tr")
  from checkItem_trace[OF step] obtain r1 where tr1: "tr1 = tr @ r1" by blast
  show ?case
  proof (cases "y = Inr Continue")
    case True
    with Cons.prems step have "processItems net ty name country its tr1 = (x, tr')" by simp
    from Cons.IH[OF this] tr1 show ?thesis by auto
  next
    case False
    with Cons.prems step have "tr' = tr1"
      by (auto split: sum.splits outcome.splits)
    with tr1 show ?thesis by blast
  qed
qed

lemma strategyBody_trace:
  assumes "strategyBody net ty name country s tr = (x, tr')"
  shows "\<exists>rest. tr' = tr @ SearchReq (strategy_query s) # rest"
proof (cases "providerFails (search_call net tr (strategy_query s))")
  case True
  from strategyBody_fails[OF this, of ty name country] assms show ?thesis by auto
next
  case False
  then obtain its where "search_call net tr (strategy_query s) = SearchResp True (Data (Items its))"
    and "its \<noteq> []"
    by (auto split: search_response.splits payload.splits items_field.splits if_splits
        elim!: providerFails.elims)
  with assms have "processItems net ty name country its (tr @ [SearchReq (strategy_query s)])
      = (x, tr')"
    by (simp add: strategyBody_def Let_def)
  from processItems_trace[OF this] show ?thesis by auto
qed

lemma executeStrategies_trace:
  "executeStrategies net ss ty name country tr = (x, tr') \<Longrightarrow> \<exists>rest. tr' = tr @ rest"
proof (induction ss arbitrary: tr)
  case Nil
  then show ?case by simp
next
  case (Cons s ss)
  obtain y tr1 where body: "strategyBody net ty name country s tr = (y, tr1)"
    by (cases "strategyBody net ty name country s tr")
  from strategyBody_trace[OF body] obtain r1 where tr1: "tr1 = tr @ SearchReq (strategy_query s) # r1"
    by blast
  show ?case
  proof (cases "\<exists>u. y = Inr (Some u)")
    case True
    with Cons.prems body tr1 show ?thesis by auto
  next
    case False
    with body have "executeStrategies net (s # ss) ty name country tr
        = executeStrategies net ss ty name country tr1"
      by (intro executeStrategies_skip) auto
    with Cons.prems have "executeStrategies net ss ty name country tr1 = (x, tr')" by simp
    from Cons.IH[OF this] tr1 show ?thesis by auto
  qed
qed

lemma executeStrategies_first_request:
  "\<exists>r rest. executeStrategies net (s # ss) ty name country tr
      = (Inr r, tr @ SearchReq (strategy_query s) # rest)"
proof -
  obtain y tr1 where body: "strategyBody net ty name country s tr = (y, tr1)"
    by (cases "strategyBody net ty name country s tr")
  from strategyBody_trace[OF body] obtain r1 where tr1: "tr1 = tr @ SearchReq (strategy_query s) # r1"
    by blast
  obtain r tr' where run: "executeStrategies net (s # ss) ty name country tr = (Inr r, tr')"
    using executeStrategies_returns by blast
  show ?thesis
  proof (cases "\<exists>u. y = Inr (Some u)")
    case True
    with run body tr1 show ?thesis by auto
  next
    case False
    with body have "executeStrategies net (s # ss) ty name country tr
        = executeStrategies net ss ty name country tr1"
      by (intro executeStrategies_skip) auto
    with run have "executeStrategies net ss ty name country tr1 = (Inr r, tr')" by simp
    from executeStrategies_trace[OF this] tr1 run show ?thesis by auto
  qed
qed

lemma universityStrategies_shape:
  "\<exists>s ss. universityStrategies name = s # ss \<and> length ss = 4"
  by (simp add: universityStrategies_def)

lemma cityStrategies_shape:
  "\<exists>s ss. cityStrategies name country = s # ss \<and> length ss = 4"
  by (simp add: cityStrategies_def)

text \<open>
  Claim C5, amended. \<^verbatim>\<open>searchUniversityImage\<close> and \<^verbatim>\<open>searchCityImage\<close> do not check
  the entity name: for every name, the empty and the blank ones included, five
  strategies are constructed, the first strategy's query is issued as the first network
  request, and the call returns without throwing; the location stage is skipped for the
  empty name. The empty name is rejected earlier, by the controllers, which answer 400
  without calling the service.
\<close>

theorem discovery_does_not_check_name:
  "length (universityStrategies name) = 5 \<and> length (cityStrategies name country) = 5
   \<and> (\<exists>r rest. searchUniversityImage net name tr
        = (Inr r, tr @ SearchReq (strategy_query (hd (universityStrategies name))) # rest))
   \<and> (\<exists>r rest. searchCityImage net name country tr
        = (Inr r, tr @ SearchReq (strategy_query (hd (cityStrategies name country))) # rest))
   \<and> \<not> locationMismatch ty [] country allText
   \<and> CityController_extract extractCityData cityParses (JStr []) state c tr = (400, tr)
   \<and> UniversityController_extract extractUniversityData universityParses (JStr []) tr = (400, tr)"
proof -
  obtain s ss where u: "universityStrategies name = s # ss" "length ss = 4"
    using universityStrategies_shape by blast
  obtain t ts where c: "cityStrategies name country = t # ts" "length ts = 4"
    using cityStrategies_shape by blast
  have "\<exists>r rest. searchUniversityImage net name tr
        = (Inr r, tr @ SearchReq (strategy_query (hd (universityStrategies name))) # rest)"
    using executeStrategies_first_request[of net s ss] by (simp add: searchUniversityImage_def u)
  moreover have "\<exists>r rest. searchCityImage net name country tr
        = (Inr r, tr @ SearchReq (strategy_query (hd (cityStrategies name country))) # rest)"
    using executeStrategies_first_request[of net t ts] by (simp add: searchCityImage_def c)
  moreover have "\<not> locationMismatch ty [] country allText"
    by (simp add: locationMismatch_def)
  moreover have "CityController_extract extractCityData cityParses (JStr []) state c tr = (400, tr)"
    by (simp add: CityController_extract_def)
  moreover have "UniversityController_extract extractUniversityData universityParses (JStr []) tr
      = (400, tr)"
    by (simp add: UniversityController_extract_def)
  ultimately show ?thesis using u c by simp
qed

theorem discovery_does_not_check_name_witness:
  "length (universityStrategies []) = 5
   \<and> (\<exists>r rest. searchCityImage deadNetwork [] [] []
         = (Inr r, SearchReq (strategy_query (hd (cityStrategies [] []))) # rest))
   \<and> CityController_extract (\<lambda>c s k tr. (Inr c, tr)) (\<lambda>d. True) (JStr []) Null
         (JStr ''Canada'') [] = (400, [])"
  using discovery_does_not_check_name
    [where name = "[]" and country = "[]" and net = deadNetwork and tr = "[]"
       and extractCityData = "\<lambda>c s k tr. (Inr c, tr)" and cityParses = "\<lambda>d. True"
       and state = Null and c = "JStr ''Canada''" and ty = "''city''" and allText = "[]"
       and extractUniversityData = "\<lambda>u tr. (Inr u, tr)" and universityParses = "\<lambda>d. True"]
  by simp

text \<open>
  Claim C5, as stated, fails. With the empty name \<^verbatim>\<open>searchCityImage\<close> constructs its
  five strategies, queries the provider and returns the first candidate's URL; with a
  blank name and a dead network \<^verbatim>\<open>searchUniversityImage\<close> issues all five queries.
\<close>

theorem empty_name_not_rejected:
  "searchCityImage (providerNetwork [skylineCandidate]) [] [] []
     = (Inr (Some ''https://example.com/a.jpg''),
        [SearchReq (strategy_query (hd (cityStrategies [] [])))])
   \<and> length (cityStrategies [] []) = 5
   \<and> length (snd (searchUniversityImage deadNetwork ''   '' [])) = 5"
  by code_simp

section \<open>The city image without a search service\<close>

lemma validateImageUrl_trace:
  "validateImageUrl net (JStr url) tr = (r, tr') \<Longrightarrow> tr' = tr \<or> tr' = tr @ [HeadReq url]"
  by (auto simp: validateImageUrl_def Let_def catch_probeBlock split: if_splits option.splits)

text \<open>
  Claim C8. Without an image-search service, a non-empty \<^verbatim>\<open>city_image\<close> that
  \<^verbatim>\<open>validateImageUrl\<close> rejects is replaced by the empty string; every other field of
  the record is unchanged, and the only network request possible is one header probe of
  that URL.
\<close>

theorem degraded_mode_substitution:
  assumes "city_image validatedData \<noteq> []"
    and "validateImageUrl net (JStr (city_image validatedData)) tr = (Inr False, tr')"
  shows "extractCityData_image net False city country validatedData tr
           = (Inr (validatedData\<lparr>city_image := []\<rparr>), tr')
     \<and> (tr' = tr \<or> tr' = tr @ [HeadReq (city_image validatedData)])"
  using assms validateImageUrl_trace[OF assms(2)]
  by (simp add: extractCityData_image_def)

theorem degraded_mode_substitution_witness:
  "extractCityData_image htmlNetwork False ''Example City'' ''Canada'' geminiCityData []
     = (Inr \<lparr>city_image = []\<rparr>, [HeadReq ''https://example.com/visit/city''])"
proof -
  have ne: "city_image geminiCityData \<noteq> []" by (simp add: geminiCityData_def)
  have rej: "validateImageUrl htmlNetwork (JStr (city_image geminiCityData)) []
      = (Inr False, [HeadReq ''https://example.com/visit/city''])"
    by code_simp
  from degraded_mode_substitution[OF ne rej, of "''Example City''" "''Canada''"] show ?thesis
    by (simp add: geminiCityData_def)
qed

section \<open>Letters beyond ASCII\<close>

text \<open>
  The country name is lowered as JavaScript lowers it: U+00D6 becomes U+00F6, the
  text is found to mention the country, and the candidate is returned although it
  mentions Tokyo.
\<close>

lemma toLowerCase_latin1:
  "toLowerCase (CHR 0xD6 # ''sterreich'') = CHR 0xF6 # ''sterreich''"
  "toLowerCase [CHR 0xD7, CHR 0xDE, CHR 0xDF, CHR 0xFF] = [CHR 0xD7, CHR 0xFE, CHR 0xDF, CHR 0xFF]"
  by code_simp+

lemma latin1_country_found:
  "checkItem deadNetwork ''city'' ''Wien'' (CHR 0xD6 # ''sterreich'') austriaCandidate []
     = (Inr (Return ''https://example.com/ring.jpg''), [])"
  by code_simp

section \<open>The end-to-end scenario\<close>

text \<open>
  The provider returns nothing for the first query and one candidate for the second:
  the candidate's URL is found with exactly two provider calls and no probe.
\<close>

lemma end_to_end_scenario:
  "searchCityImage secondQueryNetwork ''Example City'' ''Canada'' []
     = (Inr (Some ''https://example.com/a.jpg''),
        map (\<lambda>s. SearchReq (strategy_query s)) (take 2 (cityStrategies ''Example City'' ''Canada'')))"
  by code_simp

end
